theory Spec2Isabelle
  imports Complex_Main "HOL-Library.Log_Nat"
begin

section \<open>LinkMind: the audit pipeline of HuaweiRTNAdapter.py\<close>

text \<open>
  The development embeds the Python module \<^verbatim>\<open>HuaweiRTNAdapter.py\<close>: the fail-soft
  field extraction (\<^verbatim>\<open>safe_extract\<close>, \<^verbatim>\<open>HuaweiAdapter.parse\<close>), the offense
  evaluator (\<^verbatim>\<open>TheGodfather._judge_concurrently\<close>), the probation state machine
  (\<^verbatim>\<open>_process_verdict\<close>) and the batch remediation (\<^verbatim>\<open>_execute_rico_act\<close>).
  Python names that start with an underscore lose it, since an Isabelle name starts with
  a letter. Exceptions are values of the type \<open>py_error\<close>; a function that can raise
  returns \<open>py_error + 'a\<close>.
\<close>

datatype py_error = AttributeError | OverflowError | ValueError

definition bind_err :: "py_error + 'a \<Rightarrow> ('a \<Rightarrow> py_error + 'b) \<Rightarrow> py_error + 'b" where
  "bind_err m f = (case m of Inl e \<Rightarrow> Inl e | Inr x \<Rightarrow> f x)"

subsection \<open>Python floats: IEEE 754 binary64, round to nearest, ties to even\<close>

text \<open>
  A Python \<^verbatim>\<open>float\<close> is a binary64 number. The finite ones are modelled by their exact
  rational value; the two infinities and NaN are separate constructors. The two zeros are
  identified: no operation of the module tells them apart. Every arithmetic result is
  the exact rational result rounded by \<open>round_double\<close>: 53 bits of precision, exponents
  from -1022 (below it the spacing stays \<open>2 powi -1074\<close>, the subnormal range), and, as
  IEEE 754 section 4.3.1 words it, a magnitude of at least \<open>2^1024 - 2^970\<close> rounds to
  infinity.
\<close>

datatype pyfloat = Fin rat | PInf | NInf | NaN

definition pow2 :: "int \<Rightarrow> rat" where
  "pow2 k = (if 0 \<le> k then of_int (2 ^ nat k) else 1 / of_int (2 ^ nat (- k)))"

text \<open>\<open>exponent_of x\<close> is the \<open>e\<close> with \<open>2 powi e \<le> x < 2 powi (e + 1)\<close>, for \<open>0 < x\<close>.\<close>

definition exponent_of :: "rat \<Rightarrow> int" where
  "exponent_of x =
     (let (p, q) = quotient_of x; e = bitlen p - bitlen q
      in if pow2 e \<le> x then e else e - 1)"

definition round_half_even :: "rat \<Rightarrow> int" where
  "round_half_even x =
     (let f = \<lfloor>x\<rfloor>; d = x - of_int f
      in if d < 1 / 2 then f else if 1 / 2 < d then f + 1
         else if even f then f else f + 1)"

definition ulp :: "rat \<Rightarrow> rat" where
  "ulp x = pow2 (max (exponent_of x) (- 1022) - 52)"

definition nearest_even :: "rat \<Rightarrow> rat" where
  "nearest_even x = of_int (round_half_even (x / ulp x)) * ulp x"

definition DBL_OVERFLOW :: rat where
  "DBL_OVERFLOW = of_int (2 ^ 1024 - 2 ^ 970)"

definition round_double :: "rat \<Rightarrow> pyfloat" where
  "round_double x =
     (if x = 0 then Fin 0
      else if DBL_OVERFLOW \<le> \<bar>x\<bar> then (if 0 < x then PInf else NInf)
      else Fin (sgn x * nearest_even \<bar>x\<bar>))"

text \<open>Float multiplication and addition (\<^verbatim>\<open>*\<close>, \<^verbatim>\<open>+=\<close>): they never raise.\<close>

fun fmul :: "pyfloat \<Rightarrow> pyfloat \<Rightarrow> pyfloat" where
  "fmul (Fin a) (Fin b) = round_double (a * b)"
| "fmul NaN y = NaN"
| "fmul x NaN = NaN"
| "fmul (Fin a) PInf = (if a = 0 then NaN else if 0 < a then PInf else NInf)"
| "fmul (Fin a) NInf = (if a = 0 then NaN else if 0 < a then NInf else PInf)"
| "fmul PInf (Fin b) = (if b = 0 then NaN else if 0 < b then PInf else NInf)"
| "fmul NInf (Fin b) = (if b = 0 then NaN else if 0 < b then NInf else PInf)"
| "fmul PInf PInf = PInf"
| "fmul PInf NInf = NInf"
| "fmul NInf PInf = NInf"
| "fmul NInf NInf = PInf"

fun fadd :: "pyfloat \<Rightarrow> pyfloat \<Rightarrow> pyfloat" where
  "fadd (Fin a) (Fin b) = round_double (a + b)"
| "fadd NaN y = NaN"
| "fadd x NaN = NaN"
| "fadd PInf NInf = NaN"
| "fadd NInf PInf = NaN"
| "fadd PInf y = PInf"
| "fadd NInf y = NInf"
| "fadd (Fin a) y = y"

text \<open>
  An \<^verbatim>\<open>int\<close> operand of a float operation is converted first (correctly rounded);
  CPython raises \<^verbatim>\<open>OverflowError: int too large to convert to float\<close> when the
  rounded value is not finite.
\<close>

definition int_to_float :: "int \<Rightarrow> py_error + pyfloat" where
  "int_to_float i =
     (case round_double (of_int i) of Fin r \<Rightarrow> Inr (Fin r) | _ \<Rightarrow> Inl OverflowError)"

definition int_mul_float :: "int \<Rightarrow> pyfloat \<Rightarrow> py_error + pyfloat" where
  "int_mul_float i y = bind_err (int_to_float i) (\<lambda>x. Inr (fmul x y))"

text \<open>
  \<^verbatim>\<open>int(x)\<close> of a float truncates towards zero and raises on an infinity
  (\<^verbatim>\<open>OverflowError\<close>) and on NaN (\<^verbatim>\<open>ValueError\<close>).
\<close>

fun float_to_int :: "pyfloat \<Rightarrow> py_error + int" where
  "float_to_int (Fin r) = Inr (if 0 \<le> r then \<lfloor>r\<rfloor> else - \<lfloor>- r\<rfloor>)"
| "float_to_int NaN = Inl ValueError"
| "float_to_int x = Inl OverflowError"

text \<open>
  Comparisons. Python compares an \<^verbatim>\<open>int\<close> with a \<^verbatim>\<open>float\<close> by their exact values,
  without converting the integer; every comparison with NaN is false.
\<close>

fun float_lt :: "pyfloat \<Rightarrow> pyfloat \<Rightarrow> bool" where
  "float_lt (Fin a) (Fin b) = (a < b)"
| "float_lt NaN y = False"
| "float_lt x NaN = False"
| "float_lt x NInf = False"
| "float_lt PInf y = False"
| "float_lt x PInf = True"
| "float_lt NInf y = True"

definition float_lt_int :: "pyfloat \<Rightarrow> int \<Rightarrow> bool" where
  "float_lt_int x i = float_lt x (Fin (of_int i))"

definition int_gt_float :: "int \<Rightarrow> pyfloat \<Rightarrow> bool" where
  "int_gt_float i y = float_lt y (Fin (of_int i))"

subsection \<open>Configuration\<close>

text \<open>
  The \<^verbatim>\<open>CONFIG\<close> dictionary. A float literal denotes the double nearest to its decimal
  value, so \<^verbatim>\<open>1.2\<close> is \<open>round_double (12 / 10)\<close>, which is not \<open>12 / 10\<close>.
\<close>

definition PROBATION_DAYS :: int where
  "PROBATION_DAYS = 15"

definition SAFETY_MARGIN :: pyfloat where
  "SAFETY_MARGIN = round_double (12 / 10)"

definition COSTS_LICENSE_MBPS :: pyfloat where
  "COSTS_LICENSE_MBPS = round_double 10"

definition COSTS_BW_MHZ :: pyfloat where
  "COSTS_BW_MHZ = round_double 20"

definition COSTS_POWER_WATT :: pyfloat where
  "COSTS_POWER_WATT = round_double 5"

subsection \<open>Data structures\<close>

text \<open>
  A link identifier is what \<^verbatim>\<open>safe_extract\<close> yields for the \<^verbatim>\<open>id\<close> field: an
  \<^verbatim>\<open>int\<close> or a \<^verbatim>\<open>str\<close>. The field \<^verbatim>\<open>id\<close> of \<^verbatim>\<open>NodeData\<close> is named \<open>id_node\<close>
  here. \<^verbatim>\<open>Offense.wasted_qty\<close> holds the integers the evaluator stores in it, and
  \<^verbatim>\<open>Offense.details\<close>, an f-string in the source, keeps its parts.
\<close>

datatype ident = IdInt int | IdStr string

record NodeData =
  id_node :: ident
  vendor :: string
  bandwidth :: int
  throughput :: pyfloat
  license_reserved :: int
  license_actual :: int
  admin_status :: string

datatype details_text = Hoarding int | Wasting_Spectrum | Zombie_Port_Active

record Offense =
  code :: string
  wasted_qty :: int
  saving_value :: pyfloat
  details :: details_text

record Verdict =
  status :: string
  offenses :: "Offense list"
  total_savings :: pyfloat

subsection \<open>The offense evaluator\<close>

text \<open>
  \<^verbatim>\<open>_judge_concurrently\<close>: three \<^verbatim>\<open>if\<close> blocks in sequence, each appending to
  \<^verbatim>\<open>offenses\<close> and adding to \<^verbatim>\<open>total_saving\<close>. In the first condition Python
  evaluates \<^verbatim>\<open>node.license_actual * 1.5\<close> before anything else, and that product and
  \<^verbatim>\<open>wasted * 10.0\<close> convert an integer to a float, which can raise.
\<close>

definition judge_concurrently :: "NodeData \<Rightarrow> py_error + Verdict" where
  "judge_concurrently node =
     (let offenses0 = []; total0 = Fin 0 in
      bind_err (int_mul_float (license_actual node) (round_double (15 / 10))) (\<lambda>limit.
      bind_err
        (if int_gt_float (license_reserved node) limit \<and> 50 < license_reserved node
         then (let wasted = license_reserved node - license_actual node in
               bind_err (int_mul_float wasted COSTS_LICENSE_MBPS) (\<lambda>val.
               Inr (offenses0 @ [\<lparr>code = ''LICENSE'', wasted_qty = wasted,
                                  saving_value = val, details = Hoarding wasted\<rparr>],
                    fadd total0 val)))
         else Inr (offenses0, total0)) (\<lambda>(offenses1, total1).
      bind_err
        (if bandwidth node = 56 \<and> float_lt_int (throughput node) 50
         then (let wasted = 28 in
               bind_err (int_mul_float wasted COSTS_BW_MHZ) (\<lambda>val.
               Inr (offenses1 @ [\<lparr>code = ''BW'', wasted_qty = wasted,
                                  saving_value = val, details = Wasting_Spectrum\<rparr>],
                    fadd total1 val)))
         else Inr (offenses1, total1)) (\<lambda>(offenses2, total2).
      let (offenses3, total3) =
            (if admin_status node = ''UP'' \<and> float_lt (throughput node) (round_double 1)
             then (let val = round_double 50 in
                   (offenses2 @ [\<lparr>code = ''ZOMBIE'', wasted_qty = 1,
                                    saving_value = val, details = Zombie_Port_Active\<rparr>],
                    fadd total2 val))
             else (offenses2, total2));
          status = (if offenses3 \<noteq> [] then ''Guilty'' else ''Innocent'')
      in Inr \<lparr>status = status, offenses = offenses3, total_savings = total3\<rparr>))))"

text \<open>
  The value of the first condition,
  \<^verbatim>\<open>node.license_reserved > (node.license_actual * 1.5) and node.license_reserved > 50\<close>,
  on the snapshots where the product is formed; on the others the evaluator raises.
\<close>

definition license_condition :: "NodeData \<Rightarrow> bool" where
  "license_condition node =
     ((case int_mul_float (license_actual node) (round_double (15 / 10)) of
         Inr limit \<Rightarrow> int_gt_float (license_reserved node) limit
       | Inl e \<Rightarrow> False)
      \<and> 50 < license_reserved node)"

subsection \<open>Regular expressions and string conversions\<close>

text \<open>
  A text is the list of its characters; the model covers texts whose code points are
  below 256. There \<^verbatim>\<open>\s\<close> matches exactly the twelve characters of \<open>is_space\<close> and
  \<^verbatim>\<open>\d\<close> the ten ASCII digits.

  The module's patterns are a literal, then classes repeated with \<^verbatim>\<open>*\<close> or \<^verbatim>\<open>+\<close>,
  with one capture group. In each of them a repeated class is followed by a character
  outside that class, or ends the pattern, so the greedy match with backtracking of
  \<^verbatim>\<open>re.search\<close> is the longest run of the class: \<open>match_here\<close> takes it with
  \<open>takeWhile\<close>. \<open>re_search\<close> tries the start positions from left to right and
  returns \<^verbatim>\<open>group(1)\<close> of the first match (the empty string for a pattern without a
  group), \<open>None\<close> when \<^verbatim>\<open>re.search\<close> returns \<^verbatim>\<open>None\<close>.
\<close>

definition is_space :: "char \<Rightarrow> bool" where
  "is_space c = (let n = (of_char c :: nat)
                 in (9 \<le> n \<and> n \<le> 13) \<or> (28 \<le> n \<and> n \<le> 32) \<or> n = 133 \<or> n = 160)"

definition is_digit :: "char \<Rightarrow> bool" where
  "is_digit c = (let n = (of_char c :: nat) in 48 \<le> n \<and> n \<le> 57)"

definition is_upper :: "char \<Rightarrow> bool" where
  "is_upper c = (let n = (of_char c :: nat) in 65 \<le> n \<and> n \<le> 90)"

definition is_id_char :: "char \<Rightarrow> bool" where
  "is_id_char c = (is_upper c \<or> is_digit c \<or> c = CHR ''_'')"

definition is_digit_or_dot :: "char \<Rightarrow> bool" where
  "is_digit_or_dot c = (is_digit c \<or> c = CHR ''.'')"

datatype item = Lit string | Star "char \<Rightarrow> bool" | Plus "char \<Rightarrow> bool" | Group "char \<Rightarrow> bool"

definition starts_with :: "string \<Rightarrow> string \<Rightarrow> bool" where
  "starts_with l s = (take (length l) s = l)"

fun match_here :: "item list \<Rightarrow> string \<Rightarrow> string \<Rightarrow> string option" where
  "match_here [] s g = Some g"
| "match_here (Lit l # r) s g =
     (if starts_with l s then match_here r (drop (length l) s) g else None)"
| "match_here (Star c # r) s g = match_here r (dropWhile c s) g"
| "match_here (Plus c # r) s g =
     (if takeWhile c s = [] then None else match_here r (dropWhile c s) g)"
| "match_here (Group c # r) s g =
     (if takeWhile c s = [] then None else match_here r (dropWhile c s) (takeWhile c s))"

fun re_search :: "item list \<Rightarrow> string \<Rightarrow> string option" where
  "re_search p [] = match_here p [] []"
| "re_search p (c # cs) =
     (case match_here p (c # cs) [] of Some g \<Rightarrow> Some g | None \<Rightarrow> re_search p cs)"

text \<open>The substring test \<^verbatim>\<open>sub in s\<close>.\<close>

fun py_in :: "string \<Rightarrow> string \<Rightarrow> bool" where
  "py_in sub [] = (sub = [])"
| "py_in sub (c # cs) = (starts_with sub (c # cs) \<or> py_in sub cs)"

text \<open>
  \<^verbatim>\<open>int(s)\<close> and \<^verbatim>\<open>float(s)\<close> on the strings the groups capture, \<open>None\<close> for
  \<^verbatim>\<open>ValueError\<close>. Over \<^verbatim>\<open>[A-Z0-9_]\<close>, \<^verbatim>\<open>int\<close> accepts digits with single
  underscores between them, and refuses more than 4300 digits (CPython's default
  \<^verbatim>\<open>int_max_str_digits\<close>). Over \<^verbatim>\<open>[\d.]\<close>, \<^verbatim>\<open>float\<close> accepts at most one dot and
  at least one digit, and rounds the decimal value to the nearest double; a value too
  large becomes \<^verbatim>\<open>inf\<close>, without an exception.
\<close>

definition digit_val :: "char \<Rightarrow> int" where
  "digit_val c = int (of_char c) - 48"

definition dec_value :: "string \<Rightarrow> int" where
  "dec_value ds = foldl (\<lambda>a c. 10 * a + digit_val c) 0 ds"

fun int_literal_ok :: "bool \<Rightarrow> string \<Rightarrow> bool" where
  "int_literal_ok after_digit [] = after_digit"
| "int_literal_ok after_digit (c # cs) =
     (if is_digit c then int_literal_ok True cs
      else if c = CHR ''_'' \<and> after_digit then int_literal_ok False cs
      else False)"

definition int_max_str_digits :: nat where
  "int_max_str_digits = 4300"

definition py_int :: "string \<Rightarrow> int option" where
  "py_int s =
     (if int_literal_ok False s \<and> length (filter is_digit s) \<le> int_max_str_digits
      then Some (dec_value (filter is_digit s)) else None)"

definition py_float :: "string \<Rightarrow> pyfloat option" where
  "py_float s =
     (if list_all is_digit_or_dot s \<and> length (filter (\<lambda>c. c = CHR ''.'') s) \<le> 1
         \<and> filter is_digit s \<noteq> []
      then Some (round_double
             (of_int (dec_value (filter is_digit s))
              / of_int (10 ^ length (filter is_digit (dropWhile is_digit s)))))
      else None)"

subsection \<open>Safe extraction, vendor detection, the Huawei adapter\<close>

text \<open>
  \<^verbatim>\<open>safe_extract(pattern, text, default, return_type)\<close>. The body converts the group
  with \<^verbatim>\<open>float\<close> when \<^verbatim>\<open>return_type == float\<close> and with \<^verbatim>\<open>int\<close> for every other
  \<^verbatim>\<open>return_type\<close>, \<^verbatim>\<open>str\<close> included; the bare \<^verbatim>\<open>except\<close> turns a failed conversion
  into the default. The parameter \<open>conv\<close> is that conversion, typed by the field.
\<close>

definition safe_extract :: "item list \<Rightarrow> string \<Rightarrow> 'a \<Rightarrow> (string \<Rightarrow> 'a option) \<Rightarrow> 'a" where
  "safe_extract pattern text dflt conv =
     (case re_search pattern text of
        None \<Rightarrow> dflt
      | Some g \<Rightarrow> (case conv g of Some v \<Rightarrow> v | None \<Rightarrow> dflt))"

definition return_type_float :: "string \<Rightarrow> pyfloat option" where
  "return_type_float g = py_float g"

definition return_type_int :: "string \<Rightarrow> int option" where
  "return_type_int g = py_int g"

text \<open>\<^verbatim>\<open>return_type=str\<close> is not \<^verbatim>\<open>float\<close>: the group goes through \<^verbatim>\<open>int\<close>.\<close>

definition return_type_str :: "string \<Rightarrow> ident option" where
  "return_type_str g = map_option IdInt (py_int g)"

definition detect_vendor :: "string \<Rightarrow> string" where
  "detect_vendor raw_text =
     (if py_in ''Current License Capacity'' raw_text then ''Huawei'' else ''Unknown'')"

definition id_pattern :: "item list" where
  "id_pattern = [Lit ''+++'', Plus is_space, Group is_id_char]"

definition license_pattern :: "item list" where
  "license_pattern =
     [Lit ''Current License Capacity(Mbps)'', Star is_space, Lit '':'', Star is_space,
      Group is_digit]"

definition throughput_pattern :: "item list" where
  "throughput_pattern =
     [Lit ''Air-interface Throughput(Mbps)'', Star is_space, Lit '':'', Star is_space,
      Group is_digit_or_dot]"

definition bandwidth_pattern :: "item list" where
  "bandwidth_pattern =
     [Lit ''Channel Bandwidth(MHz)'', Star is_space, Lit '':'', Star is_space,
      Group is_digit]"

definition status_pattern :: "item list" where
  "status_pattern =
     [Lit ''Port Admin Status'', Star is_space, Lit '':'', Star is_space, Group is_upper]"

definition status_label :: "item list" where
  "status_label = [Lit ''Port Admin Status'']"

text \<open>
  The dictionary \<^verbatim>\<open>parse\<close> returns, its keys prefixed with \<open>f_\<close>. The entries are
  evaluated in order; only the last can raise: when the label is found and the full
  pattern is not, \<^verbatim>\<open>re.search(...)\<close> is \<^verbatim>\<open>None\<close> and \<^verbatim>\<open>.group(1)\<close> raises
  \<^verbatim>\<open>AttributeError\<close>.
\<close>

record fields =
  f_id :: ident
  f_license_reserved :: int
  f_throughput :: pyfloat
  f_bandwidth :: int
  f_status :: string

definition parse :: "string \<Rightarrow> py_error + fields" where
  "parse text =
     (let i = safe_extract id_pattern text (IdStr ''UNKNOWN'') return_type_str;
          lr = safe_extract license_pattern text 0 return_type_int;
          t = safe_extract throughput_pattern text (Fin 0) return_type_float;
          bw = safe_extract bandwidth_pattern text 0 return_type_int
      in bind_err
           (if re_search status_label text \<noteq> None
            then (case re_search status_pattern text of
                    None \<Rightarrow> Inl AttributeError
                  | Some g \<Rightarrow> Inr g)
            else Inr ''DOWN'')
           (\<lambda>st. Inr \<lparr>f_id = i, f_license_reserved = lr, f_throughput = t,
                        f_bandwidth = bw, f_status = st\<rparr>))"

text \<open>
  \<^verbatim>\<open>generate_fix\<close> returns a command string; the model keeps its parts. The values
  passed are integers, on which \<^verbatim>\<open>int(value)\<close> is the identity.
\<close>

datatype command =
    MOD_MWLICENSE ident int
  | MOD_MWPORT_BW ident int
  | MOD_MWPORT_ADMIN_DOWN ident
  | Empty_Command

definition generate_fix :: "ident \<Rightarrow> int \<Rightarrow> string \<Rightarrow> command" where
  "generate_fix link_id val fix_type =
     (if fix_type = ''LICENSE'' then MOD_MWLICENSE link_id val
      else if fix_type = ''BW'' then MOD_MWPORT_BW link_id val
      else if fix_type = ''ZOMBIE'' then MOD_MWPORT_ADMIN_DOWN link_id
      else Empty_Command)"

datatype adapter = HuaweiAdapter

definition adapters :: "string \<Rightarrow> adapter option" where
  "adapters = [''Huawei'' \<mapsto> HuaweiAdapter]"

fun adapter_parse :: "adapter \<Rightarrow> string \<Rightarrow> py_error + fields" where
  "adapter_parse HuaweiAdapter text = parse text"

fun adapter_generate_fix :: "adapter \<Rightarrow> ident \<Rightarrow> int \<Rightarrow> string \<Rightarrow> command" where
  "adapter_generate_fix HuaweiAdapter link_id val fix_type = generate_fix link_id val fix_type"

subsection \<open>The database\<close>

text \<open>
  The two SQLite tables. \<^verbatim>\<open>probation_list\<close> has the primary key \<^verbatim>\<open>link_id\<close>: a
  finite map from the identifier to the rest of the row. \<^verbatim>\<open>financial_ledger\<close> is
  only appended to: a list. A date is its day number, so that the difference of two
  dates is the \<^verbatim>\<open>.days\<close> of the source; \<^verbatim>\<open>date.today()\<close> is the parameter
  \<open>today\<close>, the same through one audit. SQLite's own conversions and failures are
  outside the model.
\<close>

record probation_row =
  offense_summary :: string
  start_date :: int
  last_seen :: int
  strike_count :: int

record ledger_row =
  ledger_date :: int
  ledger_link_id :: ident
  action_taken :: string
  recovered_value :: pyfloat

record database =
  probation_list :: "ident \<rightharpoonup> probation_row"
  financial_ledger :: "ledger_row list"

definition check_probation :: "database \<Rightarrow> ident \<Rightarrow> (int \<times> int) option" where
  "check_probation db link_id =
     map_option (\<lambda>r. (start_date r, strike_count r)) (probation_list db link_id)"

text \<open>\<^verbatim>\<open>INSERT OR IGNORE\<close>: an existing row is left as it is.\<close>

definition add_suspect :: "int \<Rightarrow> ident \<Rightarrow> string \<Rightarrow> database \<Rightarrow> database" where
  "add_suspect today link_id summary db =
     (case probation_list db link_id of
        None \<Rightarrow> db\<lparr>probation_list := (probation_list db)(link_id \<mapsto>
                  \<lparr>offense_summary = summary, start_date = today, last_seen = today,
                   strike_count = 1\<rparr>)\<rparr>
      | Some r \<Rightarrow> db)"

definition update_suspect :: "int \<Rightarrow> ident \<Rightarrow> database \<Rightarrow> database" where
  "update_suspect today link_id db =
     (case probation_list db link_id of
        None \<Rightarrow> db
      | Some r \<Rightarrow> db\<lparr>probation_list := (probation_list db)(link_id \<mapsto>
                  r\<lparr>last_seen := today, strike_count := strike_count r + 1\<rparr>)\<rparr>)"

definition release_suspect :: "ident \<Rightarrow> database \<Rightarrow> database" where
  "release_suspect link_id db = db\<lparr>probation_list := (probation_list db)(link_id := None)\<rparr>"

definition record_profit :: "int \<Rightarrow> ident \<Rightarrow> string \<Rightarrow> pyfloat \<Rightarrow> database \<Rightarrow> database" where
  "record_profit today link_id action val db =
     db\<lparr>financial_ledger := financial_ledger db @
          [\<lparr>ledger_date = today, ledger_link_id = link_id, action_taken = action,
            recovered_value = val\<rparr>]\<rparr>"

subsection \<open>Reports\<close>

text \<open>
  The audit returns a formatted string; the model keeps which of the six messages it is
  and the values formatted into it. A script line is the header, a comment with the
  saving, or a command.
\<close>

datatype script_line =
    Rico_Header ident int
  | Comment string pyfloat
  | Command_Line command

datatype report =
    Unknown_Vendor_Signature
  | Clean ident
  | Cleared ident
  | Indicted ident string
  | Surveillance ident int string
  | Jackpot ident pyfloat nat "script_line list"

fun join :: "string \<Rightarrow> string list \<Rightarrow> string" where
  "join sep [] = []"
| "join sep [x] = x"
| "join sep (x # y # ys) = x @ sep @ join sep (y # ys)"

subsection \<open>Remediation and the probation state machine\<close>

text \<open>
  The loop of \<^verbatim>\<open>_execute_rico_act\<close> over \<^verbatim>\<open>verdict.offenses\<close>: the script lines of
  the offense (none for a code that is not one of the three), then its ledger row. The
  line that \<^verbatim>\<open>_execute_rico_act\<close> writes to the log file is not modelled.
\<close>

fun rico_loop ::
  "int \<Rightarrow> NodeData \<Rightarrow> adapter \<Rightarrow> Offense list \<Rightarrow> script_line list \<times> database
     \<Rightarrow> script_line list \<times> database" where
  "rico_loop today node adapter [] (scripts, db) = (scripts, db)"
| "rico_loop today node adapter (offense # rest) (scripts, db) =
     (let scripts1 =
            (if code offense = ''LICENSE''
             then scripts @ [Comment ''Fix License'' (saving_value offense),
                    Command_Line (adapter_generate_fix adapter (id_node node)
                                   (license_actual node) ''LICENSE'')]
             else if code offense = ''BW''
             then scripts @ [Comment ''Optimize BW'' (saving_value offense),
                    Command_Line (adapter_generate_fix adapter (id_node node) 28 ''BW'')]
             else if code offense = ''ZOMBIE''
             then scripts @ [Comment ''Kill Zombie'' (saving_value offense),
                    Command_Line (adapter_generate_fix adapter (id_node node) 0 ''ZOMBIE'')]
             else scripts);
          db1 = record_profit today (id_node node) (''RICO_'' @ code offense)
                  (saving_value offense) db
      in rico_loop today node adapter rest (scripts1, db1))"

definition execute_rico_act ::
  "int \<Rightarrow> NodeData \<Rightarrow> Verdict \<Rightarrow> adapter \<Rightarrow> int \<Rightarrow> database \<Rightarrow> report \<times> database" where
  "execute_rico_act today node verdict adapter days db =
     (let (scripts, db1) =
            rico_loop today node adapter (offenses verdict)
              ([Rico_Header (id_node node) days], db);
          db2 = release_suspect (id_node node) db1
      in (Jackpot (id_node node) (total_savings verdict) (length (offenses verdict)) scripts,
          db2))"

definition process_verdict ::
  "int \<Rightarrow> NodeData \<Rightarrow> Verdict \<Rightarrow> adapter \<Rightarrow> database \<Rightarrow> report \<times> database" where
  "process_verdict today node verdict adapter db =
     (if status verdict = ''Innocent''
      then (case check_probation db (id_node node) of
              Some record \<Rightarrow> (Cleared (id_node node), release_suspect (id_node node) db)
            | None \<Rightarrow> (Clean (id_node node), db))
      else
        (let record = check_probation db (id_node node);
             crimes_summary = join '','' (map code (offenses verdict))
         in case record of
              None \<Rightarrow> (Indicted (id_node node) crimes_summary,
                        add_suspect today (id_node node) crimes_summary db)
            | Some (start, strikes) \<Rightarrow>
                (let days_in_jail = today - start;
                     db1 = update_suspect today (id_node node) db
                 in if PROBATION_DAYS \<le> days_in_jail
                    then execute_rico_act today node verdict adapter days_in_jail db1
                    else (Surveillance (id_node node) days_in_jail crimes_summary, db1))))"

subsection \<open>The database calls of an audit\<close>

text \<open>
  \<^verbatim>\<open>_process_verdict\<close> and \<^verbatim>\<open>_execute_rico_act\<close> once more, with every call of a
  \<^verbatim>\<open>DatabaseManager\<close> method recorded: the state is the database and the list of the
  calls made so far, each with the database it left. The calls are in the order of the
  source, so that a write which a later write undoes stays visible.
\<close>

datatype db_call =
    Check_probation ident
  | Add_suspect ident string
  | Update_suspect ident
  | Release_suspect ident
  | Record_profit ident string pyfloat

fun db_effect :: "int \<Rightarrow> db_call \<Rightarrow> database \<Rightarrow> database" where
  "db_effect today (Check_probation link_id) db = db"
| "db_effect today (Add_suspect link_id summary) db = add_suspect today link_id summary db"
| "db_effect today (Update_suspect link_id) db = update_suspect today link_id db"
| "db_effect today (Release_suspect link_id) db = release_suspect link_id db"
| "db_effect today (Record_profit link_id action val) db =
     record_profit today link_id action val db"

type_synonym traced_db = "database \<times> (db_call \<times> database) list"

definition perform :: "int \<Rightarrow> db_call \<Rightarrow> traced_db \<Rightarrow> traced_db" where
  "perform today c s =
     (let db1 = db_effect today c (fst s) in (db1, snd s @ [(c, db1)]))"

fun rico_loop_traced ::
  "int \<Rightarrow> NodeData \<Rightarrow> adapter \<Rightarrow> Offense list \<Rightarrow> script_line list \<times> traced_db
     \<Rightarrow> script_line list \<times> traced_db" where
  "rico_loop_traced today node adapter [] (scripts, s) = (scripts, s)"
| "rico_loop_traced today node adapter (offense # rest) (scripts, s) =
     (let scripts1 =
            (if code offense = ''LICENSE''
             then scripts @ [Comment ''Fix License'' (saving_value offense),
                    Command_Line (adapter_generate_fix adapter (id_node node)
                                   (license_actual node) ''LICENSE'')]
             else if code offense = ''BW''
             then scripts @ [Comment ''Optimize BW'' (saving_value offense),
                    Command_Line (adapter_generate_fix adapter (id_node node) 28 ''BW'')]
             else if code offense = ''ZOMBIE''
             then scripts @ [Comment ''Kill Zombie'' (saving_value offense),
                    Command_Line (adapter_generate_fix adapter (id_node node) 0 ''ZOMBIE'')]
             else scripts);
          s1 = perform today
                 (Record_profit (id_node node) (''RICO_'' @ code offense)
                    (saving_value offense)) s
      in rico_loop_traced today node adapter rest (scripts1, s1))"

definition execute_rico_act_traced ::
  "int \<Rightarrow> NodeData \<Rightarrow> Verdict \<Rightarrow> adapter \<Rightarrow> int \<Rightarrow> traced_db \<Rightarrow> report \<times> traced_db" where
  "execute_rico_act_traced today node verdict adapter days s =
     (let (scripts, s1) =
            rico_loop_traced today node adapter (offenses verdict)
              ([Rico_Header (id_node node) days], s);
          s2 = perform today (Release_suspect (id_node node)) s1
      in (Jackpot (id_node node) (total_savings verdict) (length (offenses verdict)) scripts,
          s2))"

definition process_verdict_traced ::
  "int \<Rightarrow> NodeData \<Rightarrow> Verdict \<Rightarrow> adapter \<Rightarrow> traced_db \<Rightarrow> report \<times> traced_db" where
  "process_verdict_traced today node verdict adapter s =
     (if status verdict = ''Innocent''
      then (let record = check_probation (fst s) (id_node node);
                s1 = perform today (Check_probation (id_node node)) s
            in case record of
                 Some row \<Rightarrow> (Cleared (id_node node),
                              perform today (Release_suspect (id_node node)) s1)
               | None \<Rightarrow> (Clean (id_node node), s1))
      else
        (let record = check_probation (fst s) (id_node node);
             s1 = perform today (Check_probation (id_node node)) s;
             crimes_summary = join '','' (map code (offenses verdict))
         in case record of
              None \<Rightarrow> (Indicted (id_node node) crimes_summary,
                        perform today (Add_suspect (id_node node) crimes_summary) s1)
            | Some (start, strikes) \<Rightarrow>
                (let days_in_jail = today - start;
                     s2 = perform today (Update_suspect (id_node node)) s1
                 in if PROBATION_DAYS \<le> days_in_jail
                    then execute_rico_act_traced today node verdict adapter days_in_jail s2
                    else (Surveillance (id_node node) days_in_jail crimes_summary, s2))))"

subsection \<open>The audit entry point\<close>

text \<open>
  \<^verbatim>\<open>ingest_and_audit\<close>. An exception of the parser, of \<^verbatim>\<open>int(...)\<close> or of the
  evaluator leaves the function before the database is touched.
\<close>

definition ingest_and_audit :: "int \<Rightarrow> string \<Rightarrow> database \<Rightarrow> py_error + report \<times> database" where
  "ingest_and_audit today raw_log db =
     (let vendor_name = detect_vendor raw_log in
      case adapters vendor_name of
        None \<Rightarrow> Inr (Unknown_Vendor_Signature, db)
      | Some adapter \<Rightarrow>
          bind_err (adapter_parse adapter raw_log) (\<lambda>data.
          bind_err (float_to_int (fmul (f_throughput data) SAFETY_MARGIN)) (\<lambda>needed_license.
          let node = \<lparr>id_node = f_id data, vendor = vendor_name,
                      bandwidth = f_bandwidth data, throughput = f_throughput data,
                      license_reserved = f_license_reserved data,
                      license_actual = needed_license, admin_status = f_status data\<rparr>
          in bind_err (judge_concurrently node) (\<lambda>verdict.
             Inr (process_verdict today node verdict adapter db)))))"

subsection \<open>The specification's side\<close>

text \<open>
  The three trigger conditions as the specification words them, section 4.1. The licence
  fields are integers, and \<open>licenseRequiredMbps \<times> 1.5\<close> is the exact product.
\<close>

definition spec_license_hoarding :: "NodeData \<Rightarrow> bool" where
  "spec_license_hoarding n =
     (rat_of_int (license_actual n) * (3 / 2) < rat_of_int (license_reserved n)
      \<and> 50 < license_reserved n)"

text \<open>\<open>licenseReservedMbps\<close> equals exactly \<open>1.5 \<times> licenseRequiredMbps\<close>.\<close>

definition spec_at_license_boundary :: "NodeData \<Rightarrow> bool" where
  "spec_at_license_boundary n =
     (rat_of_int (license_reserved n) = rat_of_int (license_actual n) * (3 / 2))"

definition spec_spectrum_waste :: "NodeData \<Rightarrow> bool" where
  "spec_spectrum_waste n = (bandwidth n = 56 \<and> float_lt (throughput n) (Fin 50))"

definition spec_zombie_port :: "NodeData \<Rightarrow> bool" where
  "spec_zombie_port n = (admin_status n = ''UP'' \<and> float_lt (throughput n) (Fin 1))"


text \<open>An integer converts to a float without \<^verbatim>\<open>OverflowError\<close>.\<close>

definition fits_double :: "int \<Rightarrow> bool" where
  "fits_double i = (\<bar>of_int i\<bar> < DBL_OVERFLOW)"

text \<open>
  An extraction fails when the pattern is not found or the conversion of its group
  raises.
\<close>

definition extraction_fails :: "item list \<Rightarrow> (string \<Rightarrow> 'a option) \<Rightarrow> string \<Rightarrow> bool" where
  "extraction_fails pattern conv text =
     (case re_search pattern text of None \<Rightarrow> True | Some g \<Rightarrow> conv g = None)"

text \<open>
  A sequence of audits of the state machine, each with its date, and the databases it
  goes through.
\<close>

type_synonym audit = "int \<times> NodeData \<times> Verdict \<times> adapter"

fun audit_step :: "audit \<Rightarrow> database \<Rightarrow> database" where
  "audit_step (today, node, verdict, adapter) db =
     snd (process_verdict today node verdict adapter db)"

fun run_audits :: "audit list \<Rightarrow> database \<Rightarrow> database" where
  "run_audits [] db = db"
| "run_audits (a # rest) db = run_audits rest (audit_step a db)"


text \<open>Scenario A of the specification, and snapshots with fewer offenses.\<close>

definition scenario_A :: "ident \<Rightarrow> string \<Rightarrow> NodeData" where
  "scenario_A link_id v =
     \<lparr>id_node = link_id, vendor = v, bandwidth = 56, throughput = Fin (1 / 2),
      license_reserved = 400, license_actual = 0, admin_status = ''UP''\<rparr>"

definition empty_db :: database where
  "empty_db = \<lparr>probation_list = Map.empty, financial_ledger = []\<rparr>"

definition verdict_A :: Verdict where
  "verdict_A =
     \<lparr>status = ''Guilty'',
      offenses =
        [\<lparr>code = ''LICENSE'', wasted_qty = 400, saving_value = Fin 4000,
          details = Hoarding 400\<rparr>,
         \<lparr>code = ''BW'', wasted_qty = 28, saving_value = Fin 560,
          details = Wasting_Spectrum\<rparr>,
         \<lparr>code = ''ZOMBIE'', wasted_qty = 1, saving_value = Fin 50,
          details = Zombie_Port_Active\<rparr>],
      total_savings = Fin 4610\<rparr>"

definition probation_db :: "ident \<Rightarrow> int \<Rightarrow> int \<Rightarrow> database" where
  "probation_db link_id start strikes =
     \<lparr>probation_list =
        [link_id \<mapsto> \<lparr>offense_summary = ''LICENSE,BW,ZOMBIE'', start_date = start,
                        last_seen = start, strike_count = strikes\<rparr>],
      financial_ledger = []\<rparr>"

text \<open>Raw telemetry texts, on one line.\<close>

definition log_without_status :: string where
  "log_without_status =
     ''Current License Capacity(Mbps) : 400 Air-interface Throughput(Mbps) : 0.5 Channel Bandwidth(MHz) : 56''"

definition log_lowercase_status :: string where
  "log_lowercase_status = log_without_status @ '' Port Admin Status : up''"

definition log_without_banner :: string where
  "log_without_banner = log_without_status @ '' Port Admin Status : UP''"

definition log_clean_without_banner :: string where
  "log_clean_without_banner =
     ''Current License Capacity(Mbps) : 10 Air-interface Throughput(Mbps) : 100 Channel Bandwidth(MHz) : 28 Port Admin Status : UP''"

text \<open>A licence capacity of \<open>10^309\<close> Mbps, beyond the range of a double.\<close>

definition log_huge_license :: string where
  "log_huge_license = ''Current License Capacity(Mbps) : 1'' @ replicate 309 (CHR ''0'')"


section \<open>Properties\<close>

subsection \<open>Evaluation of the float model\<close>

lemma bind_err_simps [simp]:
  "bind_err (Inl e) f = Inl e" "bind_err (Inr x) f = f x"
  by (simp_all add: bind_err_def)

lemma round_half_even_of_int [simp]: "round_half_even (of_int k) = k"
  by (simp add: round_half_even_def)

lemma exponent_of_int:
  assumes "0 < i"
  shows "exponent_of (of_int i) = bitlen i - 1"
proof -
  have b: "2 ^ nat (bitlen i - 1) \<le> i" using bitlen_bounds[OF assms] by simp
  have ge: "0 \<le> bitlen i - 1" using assms by (simp add: bitlen_alt_def)
  have "pow2 (bitlen i - 1) \<le> of_int i"
    using b ge by (simp add: pow2_def)
  moreover have "bitlen 1 = 1" by (simp add: bitlen_alt_def)
  ultimately show ?thesis
    by (simp add: exponent_of_def)
qed

lemma overflow_gt_2_53: "2 ^ 53 < DBL_OVERFLOW"
  by (simp add: DBL_OVERFLOW_def)

text \<open>An integer of at most 53 bits is a double: rounding leaves it as it is.\<close>

lemma nearest_even_int:
  assumes "0 < i" "i \<le> 2 ^ 53"
  shows "nearest_even (of_int i) = of_int i"
proof -
  define e where "e = bitlen i - 1"
  have ex: "exponent_of (of_int i) = e" using exponent_of_int[OF assms(1)] by (simp add: e_def)
  have lo: "2 ^ nat e \<le> i" using bitlen_bounds[OF assms(1)] by (simp add: e_def)
  have ge: "0 \<le> e" using assms(1) by (simp add: bitlen_alt_def e_def)
  have "(2::int) ^ nat e \<le> 2 ^ 53" using lo assms(2) by linarith
  then have e53: "e \<le> 53" using ge
    by (metis nat_le_iff nat_numeral numeral_One one_less_numeral_iff power_le_imp_le_exp semiring_norm(76) of_nat_numeral)
  show ?thesis
  proof (cases "e \<le> 52")
    case True
    have u: "ulp (of_int i) = 1 / 2 ^ nat (52 - e)"
      using True ge by (auto simp: ulp_def ex pow2_def max_def)
    have "of_int i / ulp (of_int i) = (of_int (i * 2 ^ nat (52 - e)) :: rat)"
      by (simp add: u)
    then have "round_half_even (of_int i / ulp (of_int i)) = i * 2 ^ nat (52 - e)"
      by (simp only: round_half_even_of_int)
    then show ?thesis
      by (simp add: nearest_even_def u)
  next
    case False
    then have e: "e = 53" using e53 by simp
    then have i: "i = 2 ^ 53" using lo assms(2) by simp
    have "nearest_even (rat_of_int (2 ^ 53)) = rat_of_int (2 ^ 53)" by code_simp
    then show ?thesis by (simp only: i)
  qed
qed

lemma round_double_of_int:
  assumes "\<bar>i\<bar> \<le> 2 ^ 53"
  shows "round_double (of_int i) = Fin (of_int i)"
proof -
  have lt: "\<bar>rat_of_int i\<bar> < DBL_OVERFLOW"
  proof -
    have "\<bar>rat_of_int i\<bar> = of_int \<bar>i\<bar>" by simp
    also have "\<dots> \<le> of_int (2 ^ 53)" using assms by (simp only: of_int_le_iff)
    also have "\<dots> < DBL_OVERFLOW" using overflow_gt_2_53 by simp
    finally show ?thesis .
  qed
  consider "i = 0" | "0 < i" | "i < 0" by linarith
  then show ?thesis
  proof cases
    case 1
    then show ?thesis by (simp add: round_double_def)
  next
    case 2
    then have "nearest_even (of_int i) = of_int i" using nearest_even_int assms by simp
    then show ?thesis using 2 lt by (simp add: round_double_def)
  next
    case 3
    then have "nearest_even (of_int (- i)) = of_int (- i)"
      using nearest_even_int[of "- i"] assms by simp
    then show ?thesis using 3 lt by (simp add: round_double_def)
  qed
qed

lemma float_constants:
  "round_double (15 / 10) = Fin (3 / 2)" "round_double (3 / 2) = Fin (3 / 2)" "round_double 1 = Fin 1" "round_double 50 = Fin 50"
  "COSTS_LICENSE_MBPS = Fin 10" "COSTS_BW_MHZ = Fin 20"
  "SAFETY_MARGIN = Fin (5404319552844595 / 4503599627370496)"
  by code_simp+

lemma bw_saving: "int_mul_float 28 (Fin 20) = Inr (Fin 560)"
  by code_simp

lemma overflow_pos: "0 < DBL_OVERFLOW"
  by (simp add: DBL_OVERFLOW_def)

lemma int_to_float_cases:
  "int_to_float i = (if fits_double i then Inr (Fin (if i = 0 then 0 else sgn (of_int i) * nearest_even \<bar>of_int i\<bar>)) else Inl OverflowError)"
  using overflow_pos by (auto simp: int_to_float_def fits_double_def round_double_def)

text \<open>
  The exponent of a positive rational, and what follows for rounding: a half-integer
  of at most 53 bits is a double, and a finite rounded value is below the overflow
  threshold, so that the integer part of a finite product converts back to a float.
\<close>

lemma pow2_powi: "pow2 k = 2 powi k"
  by (simp add: pow2_def power_int_def inverse_eq_divide power_one_over)

lemma pow2_pos: "0 < pow2 k"
  by (simp add: pow2_powi)

lemma pow2_add: "pow2 (a + b) = pow2 a * pow2 b"
  by (simp add: pow2_powi power_int_add)

lemma pow2_mono: "a \<le> b \<Longrightarrow> pow2 a \<le> pow2 b"
  using power_int_increasing[of a b "2::rat"] by (simp add: pow2_powi)

lemma pow2_strict_mono: "a < b \<Longrightarrow> pow2 a < pow2 b"
  using power_int_strict_increasing[of a b "2::rat"] by (simp add: pow2_powi)

lemma pow2_less_iff: "pow2 a < pow2 b \<longleftrightarrow> a < b"
  using pow2_mono[of b a] pow2_strict_mono[of a b] by (auto simp: not_less[symmetric])

lemma pow2_le_iff: "pow2 a \<le> pow2 b \<longleftrightarrow> a \<le> b"
  using pow2_mono[of a b] pow2_strict_mono[of b a] by (auto simp: not_le[symmetric])

lemma bitlen_pow2_bounds:
  assumes "0 < p"
  shows "pow2 (bitlen p - 1) \<le> of_int p" "of_int p < pow2 (bitlen p)"
proof -
  have b: "2 ^ nat (bitlen p - 1) \<le> p" "p < 2 ^ nat (bitlen p)"
    using bitlen_bounds[OF assms] by simp_all
  have ge: "1 \<le> bitlen p" using assms by (simp add: bitlen_alt_def)
  have "rat_of_int (2 ^ nat (bitlen p - 1)) \<le> of_int p"
    using b(1) by (simp only: of_int_le_iff)
  then show "pow2 (bitlen p - 1) \<le> of_int p"
    using ge by (simp add: pow2_def)
  have "rat_of_int p < of_int (2 ^ nat (bitlen p))"
    using b(2) by (simp only: of_int_less_iff)
  then show "of_int p < pow2 (bitlen p)"
    using ge by (simp add: pow2_def)
qed

lemma exponent_of_bounds:
  assumes "0 < x"
  shows "pow2 (exponent_of x) \<le> x \<and> x < pow2 (exponent_of x + 1)"
proof -
  obtain p q where pq: "quotient_of x = (p, q)" by (cases "quotient_of x")
  have q: "0 < q" using quotient_of_denom_pos[OF pq] .
  have x: "x = of_int p / of_int q" using quotient_of_div[OF pq] .
  have p: "0 < p"
    using assms q x by (simp add: zero_less_divide_iff)
  let ?e = "bitlen p - bitlen q"
  note bp = bitlen_pow2_bounds[OF p] and bq = bitlen_pow2_bounds[OF q]
  have qpos: "0 < rat_of_int q" using q by simp
  have up: "x < pow2 (?e + 1)"
  proof -
    have "rat_of_int p < pow2 (bitlen p)" by (rule bp(2))
    also have "pow2 (bitlen p) = pow2 (?e + 1) * pow2 (bitlen q - 1)"
      by (simp add: pow2_add[symmetric])
    also have "\<dots> \<le> pow2 (?e + 1) * of_int q"
      using bq(1) pow2_pos[of "?e + 1"] by (simp add: mult_left_mono)
    finally show ?thesis using qpos by (simp add: x pos_divide_less_eq)
  qed
  have lo: "pow2 (?e - 1) < x"
  proof -
    have "pow2 (?e - 1) * of_int q < pow2 (?e - 1) * pow2 (bitlen q)"
      using bq(2) pow2_pos[of "?e - 1"] by (simp add: mult_strict_left_mono)
    also have "\<dots> = pow2 (bitlen p - 1)"
      by (simp add: pow2_add[symmetric])
    also have "\<dots> \<le> of_int p" by (rule bp(1))
    finally show ?thesis using qpos by (simp add: x pos_less_divide_eq)
  qed
  show ?thesis
  proof (cases "pow2 ?e \<le> x")
    case True
    then have "exponent_of x = ?e" by (simp add: exponent_of_def pq)
    with True up show ?thesis by simp
  next
    case False
    then have "exponent_of x = ?e - 1" by (simp add: exponent_of_def pq)
    with False lo show ?thesis by simp
  qed
qed

lemma exponent_of_unique:
  assumes "0 < x" "pow2 e \<le> x" "x < pow2 (e + 1)"
  shows "exponent_of x = e"
proof -
  let ?E = "exponent_of x"
  from exponent_of_bounds[OF assms(1)] have b: "pow2 ?E \<le> x" "x < pow2 (?E + 1)" by simp_all
  have "pow2 e < pow2 (?E + 1)" using assms(2) b(2) by simp
  then have 1: "e < ?E + 1" by (simp only: pow2_less_iff)
  have "pow2 ?E < pow2 (e + 1)" using assms(3) b(1) by simp
  then have 2: "?E < e + 1" by (simp only: pow2_less_iff)
  from 1 2 show ?thesis by simp
qed

lemma round_double_half:
  assumes "\<bar>m\<bar> \<le> 2 ^ 53"
  shows "round_double (of_int m / 2) = Fin (of_int m / 2)"
proof -
  have pos: "nearest_even (of_int k / 2) = of_int k / 2" if k: "0 < k" "k \<le> 2 ^ 53" for k :: int
  proof (cases "k = 2 ^ 53")
    case True
    have "nearest_even (rat_of_int (2 ^ 53) / 2) = rat_of_int (2 ^ 53) / 2" by code_simp
    then show ?thesis by (simp only: True)
  next
    case False
    let ?x = "rat_of_int k / 2"
    let ?e = "exponent_of ?x"
    have x0: "0 < ?x" using k by simp
    from exponent_of_bounds[OF x0] have b: "pow2 ?e \<le> ?x" "?x < pow2 (?e + 1)" by simp_all
    have "k < 2 ^ 53" using k False by simp
    then have "rat_of_int k < of_int (2 ^ 53)" by (simp only: of_int_less_iff)
    then have "?x < pow2 52" by (simp add: pow2_def)
    with b(1) have "pow2 ?e < pow2 52" by simp
    then have e51: "?e \<le> 51" by (simp only: pow2_less_iff)
    have "1 \<le> k" using k by simp
    then have "rat_of_int 1 \<le> of_int k" by (simp only: of_int_le_iff)
    then have "pow2 (- 1) \<le> ?x" by (simp add: pow2_def)
    with b(2) have "pow2 (- 1) < pow2 (?e + 1)" by simp
    then have "- 1 < ?e + 1" by (simp only: pow2_less_iff)
    then have em1: "- 1 \<le> ?e" by simp
    have u: "ulp ?x = 1 / 2 ^ nat (52 - ?e)"
      using e51 em1 by (simp add: ulp_def pow2_def max_def)
    have "nat (52 - ?e) = Suc (nat (51 - ?e))" using e51 by simp
    then have p: "(2::rat) ^ nat (52 - ?e) = 2 * 2 ^ nat (51 - ?e)" by simp
    have "?x / ulp ?x = of_int (k * 2 ^ nat (51 - ?e))"
      by (simp add: u p)
    then have "round_half_even (?x / ulp ?x) = k * 2 ^ nat (51 - ?e)"
      by (simp only: round_half_even_of_int)
    then show ?thesis
      by (simp add: nearest_even_def u p)
  qed
  have lt: "\<bar>rat_of_int m / 2\<bar> < DBL_OVERFLOW"
  proof -
    have "\<bar>rat_of_int m / 2\<bar> \<le> of_int \<bar>m\<bar>" by simp
    also have "\<dots> \<le> of_int (2 ^ 53)" using assms by (simp only: of_int_le_iff)
    also have "\<dots> < DBL_OVERFLOW" using overflow_gt_2_53 by simp
    finally show ?thesis .
  qed
  consider "m = 0" | "0 < m" | "m < 0" by linarith
  then show ?thesis
  proof cases
    case 1
    then show ?thesis by (simp add: round_double_def)
  next
    case 2
    then have "nearest_even (of_int m / 2) = of_int m / 2" using pos assms by simp
    then show ?thesis using 2 lt by (simp add: round_double_def)
  next
    case 3
    then have "nearest_even (of_int (- m) / 2) = of_int (- m) / 2"
      using pos[of "- m"] assms by simp
    then show ?thesis using 3 lt by (simp add: round_double_def)
  qed
qed

lemma round_half_even_le: "of_int (round_half_even y) \<le> y + 1 / 2"
proof -
  have f: "of_int \<lfloor>y\<rfloor> \<le> y" by simp
  show ?thesis
  proof (cases "y - of_int \<lfloor>y\<rfloor> < 1 / 2")
    case True
    then have eq: "round_half_even y = \<lfloor>y\<rfloor>" by (simp add: round_half_even_def Let_def)
    show ?thesis unfolding eq using f by linarith
  next
    case False
    then have h: "of_int \<lfloor>y\<rfloor> + 1 \<le> y + 1 / 2" by simp
    have "round_half_even y \<le> \<lfloor>y\<rfloor> + 1" by (simp add: round_half_even_def Let_def)
    then have "rat_of_int (round_half_even y) \<le> of_int (\<lfloor>y\<rfloor> + 1)" by (simp only: of_int_le_iff)
    with h show ?thesis by linarith
  qed
qed

lemma ulp_pos: "0 < ulp x"
  by (simp add: ulp_def pow2_pos)

lemma nearest_even_le: "nearest_even x \<le> x + ulp x / 2"
proof -
  have "of_int (round_half_even (x / ulp x)) * ulp x \<le> (x / ulp x + 1 / 2) * ulp x"
    using round_half_even_le[of "x / ulp x"] ulp_pos[of x] by (simp only: mult_right_mono less_imp_le)
  also have "\<dots> = x + ulp x / 2"
    using ulp_pos[of x] by (simp add: field_simps)
  finally show ?thesis by (simp add: nearest_even_def)
qed

lemma overflow_numerals:
  "pow2 1023 + pow2 970 / 2 \<le> DBL_OVERFLOW"
  "DBL_OVERFLOW < pow2 (1023 + 1)"
  "DBL_OVERFLOW / pow2 971 + 1 / 2 = of_int (2 ^ 53)"
  "of_int (2 ^ 53 - 1) * pow2 971 < DBL_OVERFLOW"
  by (simp_all add: pow2_def DBL_OVERFLOW_def)

lemma nearest_even_finite:
  assumes "0 < x" "x < DBL_OVERFLOW"
  shows "nearest_even x < DBL_OVERFLOW"
proof (cases "x < pow2 1023")
  case True
  from exponent_of_bounds[OF assms(1)] have "pow2 (exponent_of x) \<le> x" by simp
  with True have "pow2 (exponent_of x) < pow2 1023" by simp
  then have "exponent_of x < 1023" by (simp only: pow2_less_iff)
  then have "max (exponent_of x) (- 1022) - 52 \<le> 970" by simp
  then have "ulp x \<le> pow2 970" unfolding ulp_def by (rule pow2_mono)
  then have "x + ulp x / 2 < pow2 1023 + pow2 970 / 2" using True by simp
  with nearest_even_le[of x] overflow_numerals(1) show ?thesis by simp
next
  case False
  then have lo: "pow2 1023 \<le> x" by simp
  have hi: "x < pow2 (1023 + 1)" using assms(2) overflow_numerals(2) by simp
  have e: "exponent_of x = 1023" by (rule exponent_of_unique[OF assms(1) lo hi])
  have u: "ulp x = pow2 971" by (simp add: ulp_def e)
  let ?n = "round_half_even (x / pow2 971)"
  have "x / pow2 971 < DBL_OVERFLOW / pow2 971"
    using assms(2) pow2_pos[of 971] by (simp add: divide_strict_right_mono)
  then have "rat_of_int ?n < DBL_OVERFLOW / pow2 971 + 1 / 2"
    using round_half_even_le[of "x / pow2 971"] by simp
  then have "rat_of_int ?n < of_int (2 ^ 53)" by (simp only: overflow_numerals(3))
  then have "?n < 2 ^ 53" by (simp only: of_int_less_iff)
  then have "?n \<le> 2 ^ 53 - 1" by simp
  then have "rat_of_int ?n \<le> of_int (2 ^ 53 - 1)" by (simp only: of_int_le_iff)
  then have "of_int ?n * pow2 971 \<le> of_int (2 ^ 53 - 1) * pow2 971"
    using pow2_pos[of 971] by (simp only: mult_right_mono less_imp_le)
  with overflow_numerals(4) show ?thesis by (simp add: nearest_even_def u)
qed

lemma nearest_even_nonneg: "0 < x \<Longrightarrow> 0 \<le> nearest_even x"
proof -
  assume x: "0 < x"
  have "0 \<le> x / ulp x" using x ulp_pos[of x] by simp
  then have "0 \<le> \<lfloor>x / ulp x\<rfloor>" by simp
  then have "0 \<le> round_half_even (x / ulp x)" by (simp add: round_half_even_def Let_def)
  then show ?thesis using ulp_pos[of x] by (simp add: nearest_even_def)
qed

lemma round_double_Fin:
  assumes "round_double y = Fin r"
  shows "\<bar>r\<bar> < DBL_OVERFLOW"
proof (cases "y = 0")
  case True
  with assms overflow_pos show ?thesis by (simp add: round_double_def)
next
  case False
  then have a: "0 < \<bar>y\<bar>" by simp
  from assms False have lt: "\<bar>y\<bar> < DBL_OVERFLOW" and r: "r = sgn y * nearest_even \<bar>y\<bar>"
    by (auto simp: round_double_def split: if_splits)
  have "\<bar>r\<bar> = nearest_even \<bar>y\<bar>"
    using nearest_even_nonneg[OF a] False by (simp add: r abs_mult)
  with nearest_even_finite[OF a lt] show ?thesis by simp
qed

lemma float_to_int_fits:
  assumes "float_to_int (fmul a b) = Inr k"
  shows "fits_double k"
proof -
  have *: "fits_double k" if "float_to_int (Fin r) = Inr k" "\<bar>r\<bar> < DBL_OVERFLOW" for r
  proof -
    have "\<bar>rat_of_int k\<bar> \<le> \<bar>r\<bar>"
    proof (cases "0 \<le> r")
      case True
      then have "k = \<lfloor>r\<rfloor>" using that(1) by simp
      then show ?thesis using True by simp
    next
      case False
      then have k: "k = - \<lfloor>- r\<rfloor>" using that(1) by simp
      have "0 \<le> \<lfloor>- r\<rfloor>" using False by simp
      moreover have "rat_of_int \<lfloor>- r\<rfloor> \<le> - r" by simp
      ultimately show ?thesis using False unfolding k by simp
    qed
    with that(2) show ?thesis by (simp add: fits_double_def)
  qed
  obtain r where r: "fmul a b = Fin r"
    using assms by (cases "fmul a b") simp_all
  have "\<bar>r\<bar> < DBL_OVERFLOW"
    using r round_double_Fin by (cases a; cases b) (auto split: if_splits)
  with * assms r show ?thesis by simp
qed

subsection \<open>The offense evaluator\<close>

text \<open>
  What a verdict of the evaluator looks like: the three blocks contribute, in order, the
  offense of each rule whose condition holds; the total is accumulated in the same order;
  the status is \<^verbatim>\<open>Guilty\<close> when the list is not empty.
\<close>

lemma judge_concurrently_normal:
  assumes "judge_concurrently n = Inr v"
  shows "\<exists>val. (license_condition n \<longrightarrow>
                  int_mul_float (license_reserved n - license_actual n) COSTS_LICENSE_MBPS = Inr val)
           \<and> offenses v =
               (if license_condition n
                then [\<lparr>code = ''LICENSE'', wasted_qty = license_reserved n - license_actual n,
                       saving_value = val,
                       details = Hoarding (license_reserved n - license_actual n)\<rparr>]
                else [])
               @ (if spec_spectrum_waste n
                  then [\<lparr>code = ''BW'', wasted_qty = 28, saving_value = Fin 560,
                         details = Wasting_Spectrum\<rparr>]
                  else [])
               @ (if spec_zombie_port n
                  then [\<lparr>code = ''ZOMBIE'', wasted_qty = 1, saving_value = Fin 50,
                         details = Zombie_Port_Active\<rparr>]
                  else [])
           \<and> total_savings v = foldl fadd (Fin 0) (map saving_value (offenses v))
           \<and> status v = (if offenses v \<noteq> [] then ''Guilty'' else ''Innocent'')"
proof (cases "int_mul_float (license_actual n) (Fin (3 / 2))")
  case (Inl e)
  with assms show ?thesis
    by (simp add: judge_concurrently_def float_constants)
next
  case (Inr limit)
  show ?thesis
  proof (cases "int_gt_float (license_reserved n) limit \<and> 50 < license_reserved n")
    case False
    then have L: "\<not> license_condition n"
      using Inr by (auto simp: license_condition_def float_constants)
    from assms Inr False L show ?thesis
      by (auto simp: judge_concurrently_def Let_def float_constants bw_saving float_lt_int_def
            spec_spectrum_waste_def spec_zombie_port_def split: if_splits)
  next
    case True
    then have L: "license_condition n"
      using Inr by (auto simp: license_condition_def float_constants)
    show ?thesis
    proof (cases "int_mul_float (license_reserved n - license_actual n) COSTS_LICENSE_MBPS")
      case (Inl e)
      with assms Inr True show ?thesis
        by (simp add: judge_concurrently_def float_constants)
    next
      case val: (Inr val)
      from assms Inr True L val show ?thesis
        by (auto simp: judge_concurrently_def Let_def float_constants bw_saving float_lt_int_def
              spec_spectrum_waste_def spec_zombie_port_def split: if_splits)
    qed
  qed
qed

text \<open>
  The evaluator returns a verdict unless an integer is too large for a float: the
  required licence in the first condition, or the waste of a License Hoarding offense.
  Then it raises \<^verbatim>\<open>OverflowError\<close>.
\<close>

lemma judge_concurrently_returns:
  "(\<exists>v. judge_concurrently n = Inr v) \<longleftrightarrow>
     fits_double (license_actual n)
     \<and> (license_condition n \<longrightarrow> fits_double (license_reserved n - license_actual n))"
proof (cases "int_to_float (license_actual n)")
  case (Inl e)
  then have "judge_concurrently n = Inl e"
    by (simp add: judge_concurrently_def int_mul_float_def)
  moreover have "\<not> fits_double (license_actual n)"
    using Inl by (simp add: int_to_float_cases split: if_splits)
  ultimately show ?thesis by simp
next
  case (Inr x)
  then have f: "fits_double (license_actual n)"
    by (simp add: int_to_float_cases split: if_splits)
  have lim: "int_mul_float (license_actual n) (Fin (3 / 2)) = Inr (fmul x (Fin (3 / 2)))"
    using Inr by (simp add: int_mul_float_def)
  show ?thesis
  proof (cases "license_condition n")
    case False
    then have "\<not> (int_gt_float (license_reserved n) (fmul x (Fin (3 / 2))) \<and> 50 < license_reserved n)"
      using lim by (simp add: license_condition_def float_constants)
    then have "\<exists>v. judge_concurrently n = Inr v"
      using lim by (auto simp: judge_concurrently_def Let_def float_constants bw_saving)
    then show ?thesis using f False by simp
  next
    case True
    then have c: "int_gt_float (license_reserved n) (fmul x (Fin (3 / 2))) \<and> 50 < license_reserved n"
      using lim by (simp add: license_condition_def float_constants)
    show ?thesis
    proof (cases "int_to_float (license_reserved n - license_actual n)")
      case (Inl e)
      then have "judge_concurrently n = Inl e"
        using lim c by (simp add: judge_concurrently_def Let_def float_constants int_mul_float_def[of "license_reserved n - license_actual n"])
      moreover have "\<not> fits_double (license_reserved n - license_actual n)"
        using Inl by (simp add: int_to_float_cases split: if_splits)
      ultimately show ?thesis using True by simp
    next
      case w: (Inr w)
      then have "\<exists>v. judge_concurrently n = Inr v"
        using lim c by (auto simp: judge_concurrently_def Let_def float_constants bw_saving int_mul_float_def[of "license_reserved n - license_actual n"])
      moreover have "fits_double (license_reserved n - license_actual n)"
        using w by (simp add: int_to_float_cases split: if_splits)
      ultimately show ?thesis using f by simp
    qed
  qed
qed

text \<open>
  When three times the required licence has at most 53 bits, the product
  \<^verbatim>\<open>license_actual * 1.5\<close> is exact, and the first condition of the evaluator is the
  License Hoarding trigger of the specification.
\<close>

lemma license_product_exact:
  assumes "3 * \<bar>license_actual n\<bar> \<le> 2 ^ 53"
  shows "int_mul_float (license_actual n) (Fin (3 / 2))
           = Inr (Fin (rat_of_int (license_actual n) * (3 / 2)))"
proof -
  have la: "\<bar>license_actual n\<bar> \<le> 2 ^ 53" using assms by linarith
  have m: "\<bar>3 * license_actual n\<bar> \<le> 2 ^ 53" using assms by (simp add: abs_mult)
  have "rat_of_int (license_actual n) * (3 / 2) = rat_of_int (3 * license_actual n) / 2"
    by simp
  then have "round_double (rat_of_int (license_actual n) * (3 / 2))
               = Fin (rat_of_int (license_actual n) * (3 / 2))"
    using round_double_half[OF m] by (simp only:)
  then show ?thesis
    using round_double_of_int[OF la] by (simp add: int_mul_float_def int_to_float_def)
qed

lemma license_condition_exact:
  assumes "3 * \<bar>license_actual n\<bar> \<le> 2 ^ 53"
  shows "license_condition n = spec_license_hoarding n"
  using license_product_exact[OF assms]
  by (simp add: license_condition_def spec_license_hoarding_def float_constants
        int_gt_float_def)

lemma fits_double_53: "\<bar>i\<bar> \<le> 2 ^ 53 \<Longrightarrow> fits_double i"
proof -
  assume a: "\<bar>i\<bar> \<le> 2 ^ 53"
  have "\<bar>rat_of_int i\<bar> = of_int \<bar>i\<bar>" by simp
  also have "\<dots> \<le> of_int (2 ^ 53)" using a by (simp only: of_int_le_iff)
  also have "\<dots> < DBL_OVERFLOW" using overflow_gt_2_53 by simp
  finally show ?thesis by (simp add: fits_double_def)
qed

text \<open>
  C1, as stated, fails. With a required licence of \<open>2^53 + 2\<close> the product with 1.5
  is rounded up to 13510798882111492, so a reserved licence of that size exceeds 1.5
  times the required one and yet the verdict has no offense; the same happens just above
  \<open>2^53 / 3\<close>. With a reserved licence of \<open>10^309\<close> all three conditions hold, and the
  first rule raises \<^verbatim>\<open>OverflowError\<close> before the others are looked at.
\<close>

theorem judge_checks_all_rules_counterexample:
  "spec_license_hoarding
     \<lparr>id_node = IdStr ''UNKNOWN'', vendor = ''Huawei'', bandwidth = 28,
      throughput = Fin 7505999378950828, license_reserved = 13510798882111492,
      license_actual = 9007199254740994, admin_status = ''UP''\<rparr>
   \<and> judge_concurrently
       \<lparr>id_node = IdStr ''UNKNOWN'', vendor = ''Huawei'', bandwidth = 28,
        throughput = Fin 7505999378950828, license_reserved = 13510798882111492,
        license_actual = 9007199254740994, admin_status = ''UP''\<rparr>
       = Inr \<lparr>status = ''Innocent'', offenses = [], total_savings = Fin 0\<rparr>
   \<and> spec_license_hoarding
       \<lparr>id_node = IdStr ''UNKNOWN'', vendor = ''Huawei'', bandwidth = 28,
        throughput = Fin 100, license_reserved = 4503599627370500,
        license_actual = 3002399751580333, admin_status = ''UP''\<rparr>
   \<and> judge_concurrently
       \<lparr>id_node = IdStr ''UNKNOWN'', vendor = ''Huawei'', bandwidth = 28,
        throughput = Fin 100, license_reserved = 4503599627370500,
        license_actual = 3002399751580333, admin_status = ''UP''\<rparr>
       = Inr \<lparr>status = ''Innocent'', offenses = [], total_savings = Fin 0\<rparr>
   \<and> spec_license_hoarding ((scenario_A (IdStr ''UNKNOWN'') ''Huawei'')\<lparr>license_reserved := 10 ^ 309\<rparr>)
   \<and> spec_spectrum_waste ((scenario_A (IdStr ''UNKNOWN'') ''Huawei'')\<lparr>license_reserved := 10 ^ 309\<rparr>)
   \<and> spec_zombie_port ((scenario_A (IdStr ''UNKNOWN'') ''Huawei'')\<lparr>license_reserved := 10 ^ 309\<rparr>)
   \<and> judge_concurrently ((scenario_A (IdStr ''UNKNOWN'') ''Huawei'')\<lparr>license_reserved := 10 ^ 309\<rparr>)
       = Inl OverflowError"
  by code_simp

text \<open>
  C1, amended. On every snapshot whose required licence, times three, is at most
  \<open>2^53\<close> in magnitude, and whose licence waste converts to a float when License
  Hoarding triggers, the evaluator returns a verdict; it has checked the three rules one
  after the other and none of them has stopped the others: the codes of the offense list
  are exactly those of the rules whose trigger condition holds, in the order LICENSE,
  BW, ZOMBIE. So such a snapshot yields 0, 1, 2 or 3 offenses.
\<close>

theorem judge_checks_all_rules:
  assumes "3 * \<bar>license_actual n\<bar> \<le> 2 ^ 53"
    and "spec_license_hoarding n \<longrightarrow> fits_double (license_reserved n - license_actual n)"
  shows "\<exists>v. judge_concurrently n = Inr v
    \<and> map code (offenses v) =
       (if spec_license_hoarding n then [''LICENSE''] else [])
       @ (if spec_spectrum_waste n then [''BW''] else [])
       @ (if spec_zombie_port n then [''ZOMBIE''] else [])"
proof -
  have c: "license_condition n = spec_license_hoarding n"
    by (rule license_condition_exact[OF assms(1)])
  have "fits_double (license_actual n)"
    using assms(1) by (intro fits_double_53) linarith
  then obtain v where v: "judge_concurrently n = Inr v"
    using judge_concurrently_returns[of n] assms(2) c by auto
  from judge_concurrently_normal[OF v] c v show ?thesis by auto
qed

text \<open>
  The theorem at four snapshots, which yield three, two, one and no offense.
\<close>

theorem judge_checks_all_rules_witness:
  "(\<exists>v. judge_concurrently (scenario_A (IdStr ''UNKNOWN'') ''Huawei'') = Inr v
        \<and> map code (offenses v) = [''LICENSE'', ''BW'', ''ZOMBIE''])
   \<and> (\<exists>v. judge_concurrently
             ((scenario_A (IdStr ''UNKNOWN'') ''Huawei'')\<lparr>license_reserved := 0\<rparr>) = Inr v
        \<and> map code (offenses v) = [''BW'', ''ZOMBIE''])
   \<and> (\<exists>v. judge_concurrently
             ((scenario_A (IdStr ''UNKNOWN'') ''Huawei'')\<lparr>license_reserved := 0,
                bandwidth := 28\<rparr>) = Inr v
        \<and> map code (offenses v) = [''ZOMBIE''])
   \<and> (\<exists>v. judge_concurrently
             ((scenario_A (IdStr ''UNKNOWN'') ''Huawei'')\<lparr>license_reserved := 0,
                bandwidth := 28, admin_status := ''DOWN''\<rparr>) = Inr v
        \<and> map code (offenses v) = [])"
proof -
  let ?A = "scenario_A (IdStr ''UNKNOWN'') ''Huawei''"
  let ?B = "?A\<lparr>license_reserved := 0\<rparr>"
  let ?C = "?A\<lparr>license_reserved := 0, bandwidth := 28\<rparr>"
  let ?D = "?A\<lparr>license_reserved := 0, bandwidth := 28, admin_status := ''DOWN''\<rparr>"
  have fits: "fits_double 0" "fits_double 400" by code_simp+
  have A: "spec_license_hoarding ?A" "spec_spectrum_waste ?A" "spec_zombie_port ?A"
    by code_simp+
  have B: "\<not> spec_license_hoarding ?B" "spec_spectrum_waste ?B" "spec_zombie_port ?B"
    by code_simp+
  have C: "\<not> spec_license_hoarding ?C" "\<not> spec_spectrum_waste ?C" "spec_zombie_port ?C"
    by code_simp+
  have D: "\<not> spec_license_hoarding ?D" "\<not> spec_spectrum_waste ?D" "\<not> spec_zombie_port ?D"
    by code_simp+
  have ra: "3 * \<bar>license_actual ?A\<bar> \<le> 2 ^ 53"
    "spec_license_hoarding ?A \<longrightarrow> fits_double (license_reserved ?A - license_actual ?A)"
    using fits by (simp_all add: scenario_A_def)
  have rb: "3 * \<bar>license_actual ?B\<bar> \<le> 2 ^ 53"
    "spec_license_hoarding ?B \<longrightarrow> fits_double (license_reserved ?B - license_actual ?B)"
    using fits B by (simp_all add: scenario_A_def)
  have rc: "3 * \<bar>license_actual ?C\<bar> \<le> 2 ^ 53"
    "spec_license_hoarding ?C \<longrightarrow> fits_double (license_reserved ?C - license_actual ?C)"
    using fits C by (simp_all add: scenario_A_def)
  have rd: "3 * \<bar>license_actual ?D\<bar> \<le> 2 ^ 53"
    "spec_license_hoarding ?D \<longrightarrow> fits_double (license_reserved ?D - license_actual ?D)"
    using fits D by (simp_all add: scenario_A_def)
  show ?thesis
    using judge_checks_all_rules[OF ra] judge_checks_all_rules[OF rb]
      judge_checks_all_rules[OF rc] judge_checks_all_rules[OF rd] A B C D
    by simp
qed

text \<open>
  C4. Scenario A: with a throughput of 0.5 and the safety margin 1.2 the required licence
  is \<open>int(0.5 * 1.2) = 0\<close>; on the snapshot with 400 Mbps reserved, 56 MHz and the port
  UP the evaluator returns LICENSE (wasted 400), BW (wasted 28) and ZOMBIE (wasted 1),
  with total savings \<open>400 * 10 + 28 * 20 + 50 = 4610\<close>.
\<close>

theorem scenario_A_verdict:
  "float_to_int (fmul (Fin (1 / 2)) SAFETY_MARGIN) = Inr 0
   \<and> judge_concurrently (scenario_A link_id v) =
       Inr \<lparr>status = ''Guilty'',
            offenses =
              [\<lparr>code = ''LICENSE'', wasted_qty = 400, saving_value = Fin 4000,
                details = Hoarding 400\<rparr>,
               \<lparr>code = ''BW'', wasted_qty = 28, saving_value = Fin 560,
                details = Wasting_Spectrum\<rparr>,
               \<lparr>code = ''ZOMBIE'', wasted_qty = 1, saving_value = Fin 50,
                details = Zombie_Port_Active\<rparr>],
            total_savings = Fin (400 * 10 + 28 * 20 + 50)\<rparr>
   \<and> (400 * 10 + 28 * 20 + 50 :: rat) = 4610"
  by code_simp



text \<open>
  C6, as stated, fails for License Hoarding. A reserved licence of
  13510798882111497 is exactly 1.5 times a required licence of \<open>2^53 + 6\<close>, and one of
  \<open>2^53 + 1\<close> is exactly 1.5 times 6004799503160662; in both cases the product the
  evaluator compares with is rounded down, and the evaluator reports LICENSE.
\<close>

theorem strict_boundaries_counterexample:
  "spec_at_license_boundary
     \<lparr>id_node = IdStr ''UNKNOWN'', vendor = ''Huawei'', bandwidth = 28,
      throughput = Fin 7505999378950832, license_reserved = 13510798882111497,
      license_actual = 9007199254740998, admin_status = ''UP''\<rparr>
   \<and> judge_concurrently
       \<lparr>id_node = IdStr ''UNKNOWN'', vendor = ''Huawei'', bandwidth = 28,
        throughput = Fin 7505999378950832, license_reserved = 13510798882111497,
        license_actual = 9007199254740998, admin_status = ''UP''\<rparr>
       = Inr \<lparr>status = ''Guilty'',
              offenses = [\<lparr>code = ''LICENSE'', wasted_qty = 4503599627370499,
                           saving_value = Fin 45035996273704992,
                           details = Hoarding 4503599627370499\<rparr>],
              total_savings = Fin 45035996273704992\<rparr>
   \<and> spec_at_license_boundary
       \<lparr>id_node = IdStr ''UNKNOWN'', vendor = ''Huawei'', bandwidth = 28,
        throughput = Fin 100, license_reserved = 9007199254740993,
        license_actual = 6004799503160662, admin_status = ''UP''\<rparr>
   \<and> judge_concurrently
       \<lparr>id_node = IdStr ''UNKNOWN'', vendor = ''Huawei'', bandwidth = 28,
        throughput = Fin 100, license_reserved = 9007199254740993,
        license_actual = 6004799503160662, admin_status = ''UP''\<rparr>
       = Inr \<lparr>status = ''Guilty'',
              offenses = [\<lparr>code = ''LICENSE'', wasted_qty = 3002399751580331,
                           saving_value = Fin 30023997515803312,
                           details = Hoarding 3002399751580331\<rparr>],
              total_savings = Fin 30023997515803312\<rparr>"
  by code_simp

text \<open>
  Up to \<open>2^53\<close> the product at the boundary is the reserved licence itself.
\<close>

lemma license_boundary_exact:
  assumes "spec_at_license_boundary n" and "\<bar>license_reserved n\<bar> \<le> 2 ^ 53"
  shows "int_mul_float (license_actual n) (Fin (3 / 2))
           = Inr (Fin (rat_of_int (license_reserved n)))"
proof -
  have "rat_of_int (2 * license_reserved n) = rat_of_int (3 * license_actual n)"
    using assms(1) by (simp add: spec_at_license_boundary_def)
  then have eq: "2 * license_reserved n = 3 * license_actual n"
    by (simp only: of_int_eq_iff)
  have la: "\<bar>license_actual n\<bar> \<le> 2 ^ 53" using eq assms(2) by linarith
  have "rat_of_int (license_actual n) * (3 / 2) = rat_of_int (license_reserved n)"
    using assms(1) by (simp add: spec_at_license_boundary_def)
  then show ?thesis
    using round_double_of_int[OF la] round_double_of_int[OF assms(2)]
    by (simp add: int_mul_float_def int_to_float_def)
qed

text \<open>
  C6, amended. The comparisons are strict. A snapshot whose reserved licence is at most
  \<open>2^53\<close> in magnitude and equals exactly 1.5 times the required one gets a verdict
  without LICENSE; a throughput of exactly 1.0 gives no ZOMBIE; a throughput of exactly
  50 gives no BW.
\<close>

theorem strict_boundaries:
  "(spec_at_license_boundary n \<and> \<bar>license_reserved n\<bar> \<le> 2 ^ 53 \<longrightarrow>
      (\<exists>v. judge_concurrently n = Inr v \<and> ''LICENSE'' \<notin> set (map code (offenses v))))
   \<and> (throughput n = Fin 1 \<longrightarrow>
      (\<forall>v. judge_concurrently n = Inr v \<longrightarrow> ''ZOMBIE'' \<notin> set (map code (offenses v))))
   \<and> (throughput n = Fin 50 \<longrightarrow>
      (\<forall>v. judge_concurrently n = Inr v \<longrightarrow> ''BW'' \<notin> set (map code (offenses v))))"
proof (intro conjI impI allI)
  assume b: "spec_at_license_boundary n \<and> \<bar>license_reserved n\<bar> \<le> 2 ^ 53"
  from license_boundary_exact[of n] b
  have p: "int_mul_float (license_actual n) (Fin (3 / 2))
             = Inr (Fin (rat_of_int (license_reserved n)))" by simp
  then have L: "\<not> license_condition n"
    by (simp add: license_condition_def float_constants int_gt_float_def)
  have "fits_double (license_actual n)"
    using p by (auto simp: int_mul_float_def int_to_float_cases split: if_splits)
  then obtain v where v: "judge_concurrently n = Inr v"
    using L judge_concurrently_returns[of n] by auto
  from judge_concurrently_normal[OF v] L have "''LICENSE'' \<notin> set (map code (offenses v))"
    by auto
  with v show "\<exists>v. judge_concurrently n = Inr v \<and> ''LICENSE'' \<notin> set (map code (offenses v))"
    by blast
next
  fix v assume "throughput n = Fin 1" and v: "judge_concurrently n = Inr v"
  then have "\<not> spec_zombie_port n" by (simp add: spec_zombie_port_def)
  with judge_concurrently_normal[OF v] show "''ZOMBIE'' \<notin> set (map code (offenses v))"
    by auto
next
  fix v assume "throughput n = Fin 50" and v: "judge_concurrently n = Inr v"
  then have "\<not> spec_spectrum_waste n" by (simp add: spec_spectrum_waste_def)
  with judge_concurrently_normal[OF v] show "''BW'' \<notin> set (map code (offenses v))"
    by auto
qed

theorem strict_boundaries_witness:
  "spec_at_license_boundary
     \<lparr>id_node = IdInt 7, vendor = ''Huawei'', bandwidth = 56, throughput = Fin 1,
      license_reserved = 150, license_actual = 100, admin_status = ''UP''\<rparr>
   \<and> \<bar>150 :: int\<bar> \<le> 2 ^ 53
   \<and> (\<exists>v. judge_concurrently
             \<lparr>id_node = IdInt 7, vendor = ''Huawei'', bandwidth = 56, throughput = Fin 1,
              license_reserved = 150, license_actual = 100, admin_status = ''UP''\<rparr> = Inr v
          \<and> ''LICENSE'' \<notin> set (map code (offenses v))
          \<and> ''ZOMBIE'' \<notin> set (map code (offenses v)))
   \<and> (\<exists>v. judge_concurrently
             \<lparr>id_node = IdInt 7, vendor = ''Huawei'', bandwidth = 56, throughput = Fin 50,
              license_reserved = 150, license_actual = 100, admin_status = ''UP''\<rparr> = Inr v
          \<and> ''BW'' \<notin> set (map code (offenses v)))"
proof -
  let ?n = "\<lparr>id_node = IdInt 7, vendor = ''Huawei'', bandwidth = 56, throughput = Fin 1,
      license_reserved = 150, license_actual = 100, admin_status = ''UP''\<rparr>"
  let ?m = "\<lparr>id_node = IdInt 7, vendor = ''Huawei'', bandwidth = 56, throughput = Fin 50,
      license_reserved = 150, license_actual = 100, admin_status = ''UP''\<rparr>"
  have b: "spec_at_license_boundary ?n" "spec_at_license_boundary ?m"
    by (simp_all add: spec_at_license_boundary_def)
  have r: "\<bar>license_reserved ?n\<bar> \<le> 2 ^ 53" "\<bar>license_reserved ?m\<bar> \<le> 2 ^ 53" by simp_all
  from strict_boundaries[of ?n] b r obtain v where v: "judge_concurrently ?n = Inr v"
    "''LICENSE'' \<notin> set (map code (offenses v))" by auto
  from strict_boundaries[of ?n] v have z: "''ZOMBIE'' \<notin> set (map code (offenses v))" by simp
  from strict_boundaries[of ?m] b r obtain w where w: "judge_concurrently ?m = Inr w"
    by auto
  from strict_boundaries[of ?m] w have "''BW'' \<notin> set (map code (offenses w))" by simp
  with v z w b show ?thesis by auto
qed

subsection \<open>The probation state machine\<close>

text \<open>
  The remediation loop writes ledger rows only: the probation table is as before, the
  ledger grows by one row for each offense, and the script does not depend on the
  database.
\<close>

lemma rico_loop_probation:
  "probation_list (snd (rico_loop today node adapter offs (scripts, db))) = probation_list db"
  by (induction offs arbitrary: scripts db) (simp_all add: Let_def record_profit_def)

lemma rico_loop_ledger:
  "financial_ledger (snd (rico_loop today node adapter offs (scripts, db))) =
     financial_ledger db @
       map (\<lambda>offense. \<lparr>ledger_date = today, ledger_link_id = id_node node,
                        action_taken = ''RICO_'' @ code offense,
                        recovered_value = saving_value offense\<rparr>) offs"
  by (induction offs arbitrary: scripts db) (simp_all add: Let_def record_profit_def)

lemma rico_loop_scripts:
  "fst (rico_loop today node adapter offs (scripts, db)) =
     fst (rico_loop today node adapter offs (scripts, db2))"
  by (induction offs arbitrary: scripts db db2) (simp_all add: Let_def)

lemma execute_rico_act_eq:
  "execute_rico_act today node verdict adapter days db =
     (Jackpot (id_node node) (total_savings verdict) (length (offenses verdict))
        (fst (rico_loop today node adapter (offenses verdict)
                ([Rico_Header (id_node node) days], db))),
      release_suspect (id_node node)
        (snd (rico_loop today node adapter (offenses verdict)
                ([Rico_Header (id_node node) days], db))))"
  by (simp add: execute_rico_act_def split: prod.splits)



text \<open>
  The recording embedding returns what \<^verbatim>\<open>_process_verdict\<close> returns, and its list of
  calls only grows. The calls of the remediation loop are ledger writes.
\<close>

lemma perform_simps [simp]:
  "fst (perform today c s) = db_effect today c (fst s)"
  "snd (perform today c s) = snd s @ [(c, db_effect today c (fst s))]"
  by (simp_all add: perform_def Let_def)

lemma rico_loop_traced_erase:
  "fst (rico_loop_traced today node adapter offs (scripts, s))
     = fst (rico_loop today node adapter offs (scripts, fst s))
   \<and> fst (snd (rico_loop_traced today node adapter offs (scripts, s)))
     = snd (rico_loop today node adapter offs (scripts, fst s))"
  by (induction offs arbitrary: scripts s) (simp_all add: Let_def)

lemma rico_loop_traced_calls:
  "\<exists>ext. snd (snd (rico_loop_traced today node adapter offs (scripts, s))) = snd s @ ext
     \<and> (\<forall>e \<in> set ext. \<exists>a v. fst e = Record_profit (id_node node) a v)"
proof (induction offs arbitrary: scripts s)
  case Nil
  show ?case by simp
next
  case (Cons offense rest)
  let ?c = "Record_profit (id_node node) (''RICO_'' @ code offense) (saving_value offense)"
  let ?s1 = "perform today ?c s"
  from Cons[of _ ?s1] show ?case
    by (fastforce simp: Let_def)
qed

lemma process_verdict_traced_erase:
  "fst (process_verdict_traced today node verdict adapter s)
     = fst (process_verdict today node verdict adapter (fst s))
   \<and> fst (snd (process_verdict_traced today node verdict adapter s))
     = snd (process_verdict today node verdict adapter (fst s))"
  using rico_loop_traced_erase[of today node adapter "offenses verdict"
          "[Rico_Header (id_node node)
              (today - fst (the (check_probation (fst s) (id_node node))))]"
          "perform today (Update_suspect (id_node node))
             (perform today (Check_probation (id_node node)) s)"]
  by (auto simp: process_verdict_traced_def process_verdict_def Let_def
        execute_rico_act_traced_def execute_rico_act_def split: option.splits prod.splits)

text \<open>
  C9. On a GUILTY audit of a link with a probation record, whatever the age of the
  record, the second database call, after the look-up, is \<^verbatim>\<open>update_suspect\<close>, and it
  leaves the record with the strike count incremented and the last-seen date set to
  today. Below the threshold there is no further call. At the threshold or above, the
  ledger writes follow and the last call is \<^verbatim>\<open>release_suspect\<close>, which deletes the
  record: the update is made before the remediation path deletes it.
\<close>

theorem strike_update_precedes_remediation:
  assumes "status verdict = ''Guilty''"
    and "probation_list db (id_node node) = Some r"
  shows "\<exists>db1 rest.
      snd (snd (process_verdict_traced today node verdict adapter (db, [])))
        = (Check_probation (id_node node), db) # (Update_suspect (id_node node), db1) # rest
    \<and> probation_list db1 (id_node node)
        = Some (r\<lparr>last_seen := today, strike_count := strike_count r + 1\<rparr>)
    \<and> (today - start_date r < PROBATION_DAYS \<longrightarrow> rest = [])
    \<and> (PROBATION_DAYS \<le> today - start_date r \<longrightarrow>
          rest \<noteq> [] \<and> fst (last rest) = Release_suspect (id_node node)
          \<and> probation_list (snd (last rest)) (id_node node) = None
          \<and> (\<forall>e \<in> set (butlast rest). \<exists>a v. fst e = Record_profit (id_node node) a v))
    \<and> fst (process_verdict_traced today node verdict adapter (db, []))
        = fst (process_verdict today node verdict adapter db)
    \<and> fst (snd (process_verdict_traced today node verdict adapter (db, [])))
        = snd (process_verdict today node verdict adapter db)"
proof -
  let ?i = "id_node node"
  let ?db1 = "update_suspect today ?i db"
  let ?s2 = "(?db1, [(Check_probation ?i, db), (Update_suspect ?i, ?db1)])"
  have s2: "perform today (Update_suspect ?i) (perform today (Check_probation ?i) (db, []))
              = ?s2"
    by (simp add: perform_def Let_def)
  have u: "probation_list ?db1 ?i
             = Some (r\<lparr>last_seen := today, strike_count := strike_count r + 1\<rparr>)"
    using assms(2) by (simp add: update_suspect_def)
  have er: "fst (process_verdict_traced today node verdict adapter (db, []))
              = fst (process_verdict today node verdict adapter db)
          \<and> fst (snd (process_verdict_traced today node verdict adapter (db, [])))
              = snd (process_verdict today node verdict adapter db)"
    using process_verdict_traced_erase[of today node verdict adapter "(db, [])"] by simp
  show ?thesis
  proof (cases "PROBATION_DAYS \<le> today - start_date r")
    case False
    then have "snd (snd (process_verdict_traced today node verdict adapter (db, [])))
                 = snd ?s2"
      using assms s2 by (simp add: process_verdict_traced_def check_probation_def Let_def)
    then have t: "snd (snd (process_verdict_traced today node verdict adapter (db, [])))
                 = (Check_probation ?i, db) # (Update_suspect ?i, ?db1) # []" by simp
    show ?thesis
      apply (rule exI[of _ ?db1], rule exI[of _ "[]"])
      using t u er False by simp
  next
    case True
    let ?loop = "rico_loop_traced today node adapter (offenses verdict)
                   ([Rico_Header ?i (today - start_date r)], ?s2)"
    from rico_loop_traced_calls[of today node adapter "offenses verdict" _ ?s2]
    obtain ext where ext: "snd (snd ?loop) = snd ?s2 @ ext"
      "\<forall>e \<in> set ext. \<exists>a v. fst e = Record_profit ?i a v" by blast
    let ?fin = "release_suspect ?i (fst (snd ?loop))"
    let ?rest = "ext @ [(Release_suspect ?i, ?fin)]"
    have "snd (snd (process_verdict_traced today node verdict adapter (db, [])))
            = snd (snd ?loop) @ [(Release_suspect ?i, ?fin)]"
      using assms s2 True
      by (simp add: process_verdict_traced_def check_probation_def Let_def
            execute_rico_act_traced_def split: prod.splits)
    then have t: "snd (snd (process_verdict_traced today node verdict adapter (db, [])))
            = (Check_probation ?i, db) # (Update_suspect ?i, ?db1) # ?rest"
      using ext(1) by simp
    have "probation_list ?fin ?i = None" by (simp add: release_suspect_def)
    then have fin: "?rest \<noteq> [] \<and> fst (last ?rest) = Release_suspect ?i
          \<and> probation_list (snd (last ?rest)) ?i = None
          \<and> (\<forall>e \<in> set (butlast ?rest). \<exists>a v. fst e = Record_profit ?i a v)"
      using ext(2) by simp
    show ?thesis
      apply (rule exI[of _ ?db1], rule exI[of _ ?rest])
      using t u er True fin by simp
  qed
qed

theorem strike_update_precedes_remediation_witness:
  "status verdict_A = ''Guilty''
   \<and> probation_list (probation_db (IdInt 7) 100 1) (id_node (scenario_A (IdInt 7) ''Huawei''))
       = Some \<lparr>offense_summary = ''LICENSE,BW,ZOMBIE'', start_date = 100, last_seen = 100,
               strike_count = 1\<rparr>
   \<and> PROBATION_DAYS \<le> 130 - 100
   \<and> (\<exists>db1 rest.
        snd (snd (process_verdict_traced 130 (scenario_A (IdInt 7) ''Huawei'') verdict_A
                    HuaweiAdapter (probation_db (IdInt 7) 100 1, [])))
          = (Check_probation (IdInt 7), probation_db (IdInt 7) 100 1)
            # (Update_suspect (IdInt 7), db1) # rest
        \<and> probation_list db1 (IdInt 7)
            = Some \<lparr>offense_summary = ''LICENSE,BW,ZOMBIE'', start_date = 100,
                    last_seen = 130, strike_count = 2\<rparr>
        \<and> fst (last rest) = Release_suspect (IdInt 7)
        \<and> probation_list (snd (last rest)) (IdInt 7) = None)
   \<and> map fst (snd (snd (process_verdict_traced 130 (scenario_A (IdInt 7) ''Huawei'') verdict_A
                           HuaweiAdapter (probation_db (IdInt 7) 100 1, []))))
       = [Check_probation (IdInt 7), Update_suspect (IdInt 7),
          Record_profit (IdInt 7) ''RICO_LICENSE'' (Fin 4000),
          Record_profit (IdInt 7) ''RICO_BW'' (Fin 560),
          Record_profit (IdInt 7) ''RICO_ZOMBIE'' (Fin 50),
          Release_suspect (IdInt 7)]
   \<and> map fst (snd (snd (process_verdict_traced 114 (scenario_A (IdInt 7) ''Huawei'') verdict_A
                           HuaweiAdapter (probation_db (IdInt 7) 100 1, []))))
       = [Check_probation (IdInt 7), Update_suspect (IdInt 7)]"
proof -
  let ?n = "scenario_A (IdInt 7) ''Huawei''"
  let ?r = "\<lparr>offense_summary = ''LICENSE,BW,ZOMBIE'', start_date = 100, last_seen = 100,
               strike_count = 1\<rparr>"
  have g: "status verdict_A = ''Guilty''" by (simp add: verdict_A_def)
  have i: "id_node ?n = IdInt 7" by (simp add: scenario_A_def)
  have r: "probation_list (probation_db (IdInt 7) 100 1) (id_node ?n) = Some ?r"
    by (simp add: probation_db_def scenario_A_def)
  have d: "PROBATION_DAYS \<le> 130 - 100" by (simp add: PROBATION_DAYS_def)
  have c: "map fst (snd (snd (process_verdict_traced 130 ?n verdict_A
                           HuaweiAdapter (probation_db (IdInt 7) 100 1, []))))
       = [Check_probation (IdInt 7), Update_suspect (IdInt 7),
          Record_profit (IdInt 7) ''RICO_LICENSE'' (Fin 4000),
          Record_profit (IdInt 7) ''RICO_BW'' (Fin 560),
          Record_profit (IdInt 7) ''RICO_ZOMBIE'' (Fin 50),
          Release_suspect (IdInt 7)]"
    "map fst (snd (snd (process_verdict_traced 114 ?n verdict_A
                           HuaweiAdapter (probation_db (IdInt 7) 100 1, []))))
       = [Check_probation (IdInt 7), Update_suspect (IdInt 7)]"
    by code_simp+
  from strike_update_precedes_remediation[OF g r, of 130 HuaweiAdapter] d
  obtain db1 rest where
    "snd (snd (process_verdict_traced 130 ?n verdict_A HuaweiAdapter
                 (probation_db (IdInt 7) 100 1, [])))
       = (Check_probation (id_node ?n), probation_db (IdInt 7) 100 1)
         # (Update_suspect (id_node ?n), db1) # rest"
    "probation_list db1 (id_node ?n) = Some (?r\<lparr>last_seen := 130, strike_count := strike_count ?r + 1\<rparr>)"
    "fst (last rest) = Release_suspect (id_node ?n)"
    "probation_list (snd (last rest)) (id_node ?n) = None"
    by auto
  then have "\<exists>db1 rest.
        snd (snd (process_verdict_traced 130 ?n verdict_A
                    HuaweiAdapter (probation_db (IdInt 7) 100 1, [])))
          = (Check_probation (IdInt 7), probation_db (IdInt 7) 100 1)
            # (Update_suspect (IdInt 7), db1) # rest
        \<and> probation_list db1 (IdInt 7)
            = Some \<lparr>offense_summary = ''LICENSE,BW,ZOMBIE'', start_date = 100,
                    last_seen = 130, strike_count = 2\<rparr>
        \<and> fst (last rest) = Release_suspect (IdInt 7)
        \<and> probation_list (snd (last rest)) (IdInt 7) = None"
    unfolding i by (intro exI[of _ db1] exI[of _ rest]) simp
  with g r d c show ?thesis by blast
qed

text \<open>
  One audit leaves a probation record that it does not delete with its start date, and
  with a strike count that is not smaller.
\<close>

lemma process_verdict_record:
  assumes "probation_list db k = Some r"
    and "probation_list (snd (process_verdict today node verdict adapter db)) k = Some r'"
  shows "start_date r' = start_date r \<and> strike_count r \<le> strike_count r'"
proof (cases "k = id_node node")
  case False
  then have "probation_list (snd (process_verdict today node verdict adapter db)) k
               = probation_list db k"
    by (auto simp: process_verdict_def check_probation_def Let_def execute_rico_act_eq
          release_suspect_def add_suspect_def update_suspect_def rico_loop_probation
          split: option.splits)
  with assms show ?thesis by simp
next
  case True
  with assms show ?thesis
    by (auto simp: process_verdict_def check_probation_def Let_def execute_rico_act_eq
          release_suspect_def update_suspect_def rico_loop_probation
          split: if_splits)
qed

lemma audit_step_record:
  assumes "probation_list db k = Some r"
    and "probation_list (audit_step a db) k = Some r'"
  shows "start_date r' = start_date r \<and> strike_count r \<le> strike_count r'"
proof -
  obtain today node verdict adapter where a: "a = (today, node, verdict, adapter)"
    by (cases a) auto
  show ?thesis using assms process_verdict_record unfolding a by simp
qed

lemma run_audits_append:
  "run_audits (xs @ ys) db = run_audits ys (run_audits xs db)"
  by (induction xs arbitrary: db) simp_all

lemma run_audits_record:
  assumes "\<forall>m \<le> length audits. probation_list (run_audits (take m audits) db) k \<noteq> None"
    and "probation_list db k = Some r"
    and "probation_list (run_audits audits db) k = Some r'"
  shows "start_date r' = start_date r \<and> strike_count r \<le> strike_count r'"
  using assms
proof (induction audits arbitrary: db r)
  case Nil
  then show ?case by simp
next
  case (Cons a rest)
  have "probation_list (run_audits (take 1 (a # rest)) db) k \<noteq> None"
    using Cons.prems(1)[rule_format, of 1] by simp
  then obtain r1 where r1: "probation_list (audit_step a db) k = Some r1"
    by auto
  have step: "start_date r1 = start_date r \<and> strike_count r \<le> strike_count r1"
    using audit_step_record[OF Cons.prems(2) r1] .
  have pre: "\<forall>m \<le> length rest. probation_list (run_audits (take m rest) (audit_step a db)) k \<noteq> None"
  proof (intro allI impI)
    fix m assume "m \<le> length rest"
    then have "Suc m \<le> length (a # rest)" by simp
    then have "probation_list (run_audits (take (Suc m) (a # rest)) db) k \<noteq> None"
      using Cons.prems(1) by blast
    then show "probation_list (run_audits (take m rest) (audit_step a db)) k \<noteq> None"
      by simp
  qed
  have "start_date r' = start_date r1 \<and> strike_count r1 \<le> strike_count r'"
    using Cons.IH[OF pre r1] Cons.prems(3) by simp
  with step show ?case by simp
qed

lemma take_segment:
  assumes "i + m \<le> j"
  shows "take (i + m) xs = take i xs @ take m (drop i (take j xs))"
proof -
  have c: "take m (drop i (take j xs)) = take m (drop i xs)"
    using assms by (simp add: drop_take min_def)
  show ?thesis unfolding c by (rule take_add)
qed

text \<open>
  C7. Take any sequence of audits and a link whose probation record exists after each of
  the audits from the \<open>i\<close>-th to the \<open>j\<close>-th, that is, which is not deleted in
  between. Then the record after \<open>j\<close> audits has the start date of the record after
  \<open>i\<close> audits, and a strike count that is at least as large. The audits are arbitrary,
  the GUILTY ones of the claim among them.
\<close>

theorem probation_record_monotone:
  assumes "\<forall>m. i \<le> m \<and> m \<le> j \<longrightarrow>
             probation_list (run_audits (take m audits) db) k \<noteq> None"
    and "i \<le> j" and "j \<le> length audits"
    and "probation_list (run_audits (take i audits) db) k = Some ri"
    and "probation_list (run_audits (take j audits) db) k = Some rj"
  shows "start_date rj = start_date ri \<and> strike_count ri \<le> strike_count rj"
proof -
  let ?seg = "drop i (take j audits)"
  let ?dbi = "run_audits (take i audits) db"
  have len: "length ?seg = j - i" using assms(3) by simp
  have seg: "run_audits (take m ?seg) ?dbi = run_audits (take (i + m) audits) db"
    if "i + m \<le> j" for m
    using take_segment[OF that, of audits] by (simp only: run_audits_append)
  have pre: "\<forall>m \<le> length ?seg. probation_list (run_audits (take m ?seg) ?dbi) k \<noteq> None"
  proof (intro allI impI)
    fix m assume "m \<le> length ?seg"
    then have le: "i + m \<le> j" using len assms(2) by simp
    have "probation_list (run_audits (take (i + m) audits) db) k \<noteq> None"
      using assms(1)[rule_format, of "i + m"] le by simp
    then show "probation_list (run_audits (take m ?seg) ?dbi) k \<noteq> None"
      by (simp add: seg[OF le])
  qed
  have "i + (j - i) \<le> j" using assms(2) by simp
  from seg[OF this] have fin: "run_audits ?seg ?dbi = run_audits (take j audits) db"
    using assms(2) len by simp
  have "probation_list (run_audits ?seg ?dbi) k = Some rj"
    using assms(5) by (simp only: fin)
  from run_audits_record[OF pre assms(4) this] show ?thesis .
qed

theorem probation_record_monotone_witness:
  "probation_list (run_audits (take 0
       [(101, scenario_A (IdInt 7) ''Huawei'', verdict_A, HuaweiAdapter),
        (102, scenario_A (IdInt 8) ''Huawei'', verdict_A, HuaweiAdapter),
        (105, scenario_A (IdInt 7) ''Huawei'', verdict_A, HuaweiAdapter)])
       (probation_db (IdInt 7) 100 1)) (IdInt 7)
     = Some \<lparr>offense_summary = ''LICENSE,BW,ZOMBIE'', start_date = 100, last_seen = 100,
             strike_count = 1\<rparr>
   \<and> probation_list (run_audits (take 3
       [(101, scenario_A (IdInt 7) ''Huawei'', verdict_A, HuaweiAdapter),
        (102, scenario_A (IdInt 8) ''Huawei'', verdict_A, HuaweiAdapter),
        (105, scenario_A (IdInt 7) ''Huawei'', verdict_A, HuaweiAdapter)])
       (probation_db (IdInt 7) 100 1)) (IdInt 7)
     = Some \<lparr>offense_summary = ''LICENSE,BW,ZOMBIE'', start_date = 100, last_seen = 105,
             strike_count = 3\<rparr>
   \<and> start_date \<lparr>offense_summary = ''LICENSE,BW,ZOMBIE'', start_date = 100, last_seen = 105,
                   strike_count = 3\<rparr>
       = start_date \<lparr>offense_summary = ''LICENSE,BW,ZOMBIE'', start_date = 100,
                       last_seen = 100, strike_count = 1\<rparr>
   \<and> strike_count \<lparr>offense_summary = ''LICENSE,BW,ZOMBIE'', start_date = 100,
                       last_seen = 100, strike_count = 1\<rparr>
       \<le> strike_count \<lparr>offense_summary = ''LICENSE,BW,ZOMBIE'', start_date = 100,
                         last_seen = 105, strike_count = 3\<rparr>"
proof -
  let ?as = "[(101, scenario_A (IdInt 7) ''Huawei'', verdict_A, HuaweiAdapter),
        (102, scenario_A (IdInt 8) ''Huawei'', verdict_A, HuaweiAdapter),
        (105, scenario_A (IdInt 7) ''Huawei'', verdict_A, HuaweiAdapter)]"
  let ?db = "probation_db (IdInt 7) 100 1"
  let ?r0 = "\<lparr>offense_summary = ''LICENSE,BW,ZOMBIE'', start_date = 100, last_seen = 100,
             strike_count = 1\<rparr>"
  let ?r3 = "\<lparr>offense_summary = ''LICENSE,BW,ZOMBIE'', start_date = 100, last_seen = 105,
             strike_count = 3\<rparr>"
  have p0: "probation_list (run_audits (take 0 ?as) ?db) (IdInt 7) = Some ?r0"
    by code_simp
  have p1: "probation_list (run_audits (take 1 ?as) ?db) (IdInt 7) \<noteq> None"
    by code_simp
  have p2: "probation_list (run_audits (take 2 ?as) ?db) (IdInt 7) \<noteq> None"
    by code_simp
  have p3: "probation_list (run_audits (take 3 ?as) ?db) (IdInt 7) = Some ?r3"
    by code_simp
  have ex: "\<forall>m. 0 \<le> m \<and> m \<le> 3 \<longrightarrow> probation_list (run_audits (take m ?as) ?db) (IdInt 7) \<noteq> None"
  proof (intro allI impI)
    fix m :: nat assume "0 \<le> m \<and> m \<le> 3"
    then consider "m = 0" | "m = 1" | "m = 2" | "m = 3" by linarith
    then show "probation_list (run_audits (take m ?as) ?db) (IdInt 7) \<noteq> None"
      using p0 p1 p2 p3 by cases simp_all
  qed
  have "start_date ?r3 = start_date ?r0 \<and> strike_count ?r0 \<le> strike_count ?r3"
    by (rule probation_record_monotone[OF ex _ _ p0 p3]) simp_all
  with p0 p3 show ?thesis by (simp only: simp_thms)
qed

subsection \<open>The parser and the entry point\<close>

lemma adapters_detect_vendor:
  "adapters (detect_vendor raw) = (if py_in ''Current License Capacity'' raw then Some HuaweiAdapter else None)"
  by (simp add: adapters_def detect_vendor_def)

text \<open>
  C8. When no adapter is registered for the detected vendor, the audit returns the
  unknown-vendor result at once: the result does not depend on the database, which
  comes back unchanged, and the parser is not run.
\<close>

theorem unknown_vendor_stops:
  "adapters (detect_vendor raw) = None \<Longrightarrow>
     ingest_and_audit today raw db = Inr (Unknown_Vendor_Signature, db)"
  by (simp add: ingest_and_audit_def)

text \<open>
  At the witness the parser would raise, and the audit still returns.
\<close>

theorem unknown_vendor_stops_witness:
  "adapters (detect_vendor log_lowercase_status) = Some HuaweiAdapter
   \<and> adapters (detect_vendor ''Port Admin Status : up'') = None
   \<and> parse ''Port Admin Status : up'' = Inl AttributeError
   \<and> ingest_and_audit 115 ''Port Admin Status : up'' (probation_db (IdStr ''UNKNOWN'') 100 1)
       = Inr (Unknown_Vendor_Signature, probation_db (IdStr ''UNKNOWN'') 100 1)"
proof -
  have h: "adapters (detect_vendor ''Port Admin Status : up'') = None" by code_simp
  have "adapters (detect_vendor log_lowercase_status) = Some HuaweiAdapter" by code_simp
  moreover have "parse ''Port Admin Status : up'' = Inl AttributeError" by code_simp
  ultimately show ?thesis using unknown_vendor_stops[OF h] h by simp
qed

text \<open>
  C2, as stated, fails. On a text without the label \<^verbatim>\<open>Port Admin Status\<close> the
  admin status is \<^verbatim>\<open>DOWN\<close>, not \<^verbatim>\<open>UNKNOWN\<close>; on a text where the label is not
  followed by a colon and an upper-case word the parser raises \<^verbatim>\<open>AttributeError\<close>.
  And the evaluator can fail on the record the parser returns: a licence capacity of
  \<open>10^309\<close> is extracted as it is, and the evaluator raises \<^verbatim>\<open>OverflowError\<close> on the
  snapshot built from the record.
\<close>

theorem parse_defaults_counterexample:
  "parse log_without_status =
     Inr \<lparr>f_id = IdStr ''UNKNOWN'', f_license_reserved = 400, f_throughput = Fin (1 / 2),
          f_bandwidth = 56, f_status = ''DOWN''\<rparr>
   \<and> parse log_lowercase_status = Inl AttributeError
   \<and> parse log_huge_license =
       Inr \<lparr>f_id = IdStr ''UNKNOWN'', f_license_reserved = 10 ^ 309, f_throughput = Fin 0,
            f_bandwidth = 0, f_status = ''DOWN''\<rparr>
   \<and> float_to_int (fmul (Fin 0) SAFETY_MARGIN) = Inr 0
   \<and> judge_concurrently
       \<lparr>id_node = IdStr ''UNKNOWN'', vendor = ''Huawei'', bandwidth = 0, throughput = Fin 0,
        license_reserved = 10 ^ 309, license_actual = 0, admin_status = ''DOWN''\<rparr>
       = Inl OverflowError
   \<and> ingest_and_audit 100 log_huge_license empty_db = Inl OverflowError"
proof -
  have p: "parse log_without_status =
     Inr \<lparr>f_id = IdStr ''UNKNOWN'', f_license_reserved = 400, f_throughput = Fin (1 / 2),
          f_bandwidth = 56, f_status = ''DOWN''\<rparr>"
    "parse log_lowercase_status = Inl AttributeError"
    "parse log_huge_license =
       Inr \<lparr>f_id = IdStr ''UNKNOWN'', f_license_reserved = 10 ^ 309, f_throughput = Fin 0,
            f_bandwidth = 0, f_status = ''DOWN''\<rparr>"
    by code_simp+
  have n: "float_to_int (fmul (Fin 0) SAFETY_MARGIN) = Inr 0" by code_simp
  have j: "judge_concurrently
       \<lparr>id_node = IdStr ''UNKNOWN'', vendor = ''Huawei'', bandwidth = 0, throughput = Fin 0,
        license_reserved = 10 ^ 309, license_actual = 0, admin_status = ''DOWN''\<rparr>
       = Inl OverflowError" by code_simp
  have v: "detect_vendor log_huge_license = ''Huawei''" by code_simp
  have "ingest_and_audit 100 log_huge_license empty_db = Inl OverflowError"
    using p(3) n j v by (simp add: ingest_and_audit_def adapters_def)
  with p n j show ?thesis by (simp only: simp_thms)
qed

lemma license_condition_above_50: "license_condition n \<Longrightarrow> 50 < license_reserved n"
  by (simp add: license_condition_def)

lemma needed_license_default: "float_to_int (fmul (Fin 0) SAFETY_MARGIN) = Inr 0"
  by code_simp

lemma evaluator_returns:
  assumes "float_to_int (fmul t SAFETY_MARGIN) = Inr needed"
    and "50 < lr \<longrightarrow> fits_double (lr - needed)"
  shows "\<exists>v. judge_concurrently
               \<lparr>id_node = i, vendor = v0, bandwidth = bw, throughput = t,
                license_reserved = lr, license_actual = needed, admin_status = st\<rparr> = Inr v"
proof -
  let ?node = "\<lparr>id_node = i, vendor = v0, bandwidth = bw, throughput = t,
                license_reserved = lr, license_actual = needed, admin_status = st\<rparr>"
  have "fits_double (license_actual ?node)"
    using float_to_int_fits[OF assms(1)] by simp
  moreover have "license_condition ?node \<longrightarrow>
      fits_double (license_reserved ?node - license_actual ?node)"
    using license_condition_above_50[of ?node] assms(2) by auto
  ultimately show ?thesis
    using judge_concurrently_returns[of ?node] by blast
qed

text \<open>
  C2, amended. When the label \<^verbatim>\<open>Port Admin Status\<close> is absent, or is followed by
  optional white space, a colon, optional white space and an upper-case word, the parser
  returns a complete record without raising: a failed extraction leaves \<^verbatim>\<open>UNKNOWN\<close>
  in the id and 0 in a numeric field, and the admin status is \<^verbatim>\<open>DOWN\<close> when the
  label is absent and the captured word otherwise. So the evaluator does not fail for
  want of data: a throughput that was not extracted gives the required licence 0, and
  the snapshot built from the record gets a verdict whenever the required licence is
  computed, that is, the throughput times the margin is finite, and, for a reserved
  licence above 50, the licence waste converts to a float.
\<close>

theorem parse_returns_record:
  assumes "re_search status_label text = None \<or> re_search status_pattern text \<noteq> None"
  shows "\<exists>d. parse text = Inr d
    \<and> (extraction_fails id_pattern return_type_str text \<longrightarrow> f_id d = IdStr ''UNKNOWN'')
    \<and> (extraction_fails license_pattern return_type_int text \<longrightarrow> f_license_reserved d = 0)
    \<and> (extraction_fails throughput_pattern return_type_float text \<longrightarrow> f_throughput d = Fin 0)
    \<and> (extraction_fails bandwidth_pattern return_type_int text \<longrightarrow> f_bandwidth d = 0)
    \<and> (re_search status_label text = None \<longrightarrow> f_status d = ''DOWN'')
    \<and> (\<forall>g. re_search status_label text \<noteq> None \<and> re_search status_pattern text = Some g
           \<longrightarrow> f_status d = g)
    \<and> (extraction_fails throughput_pattern return_type_float text \<longrightarrow>
           float_to_int (fmul (f_throughput d) SAFETY_MARGIN) = Inr 0)
    \<and> (\<forall>needed v0.
           float_to_int (fmul (f_throughput d) SAFETY_MARGIN) = Inr needed
           \<and> (50 < f_license_reserved d \<longrightarrow> fits_double (f_license_reserved d - needed))
           \<longrightarrow> (\<exists>v. judge_concurrently
                      \<lparr>id_node = f_id d, vendor = v0, bandwidth = f_bandwidth d,
                       throughput = f_throughput d,
                       license_reserved = f_license_reserved d,
                       license_actual = needed, admin_status = f_status d\<rparr> = Inr v))"
proof -
  have fails: "safe_extract p text dflt conv = dflt" if "extraction_fails p conv text"
    for p conv and dflt :: 'a
    using that by (auto simp: extraction_fails_def safe_extract_def split: option.splits)
  from assms show ?thesis
    by (auto simp: parse_def Let_def fails needed_license_default split: option.splits
          intro!: evaluator_returns)
qed

text \<open>
  The theorem on the empty text, where every field takes its default, and on a text
  with the status \<^verbatim>\<open>UP\<close>.
\<close>

theorem parse_returns_record_witness:
  "re_search status_label [] = None
   \<and> extraction_fails id_pattern return_type_str []
   \<and> extraction_fails license_pattern return_type_int []
   \<and> extraction_fails throughput_pattern return_type_float []
   \<and> extraction_fails bandwidth_pattern return_type_int []
   \<and> parse [] = Inr \<lparr>f_id = IdStr ''UNKNOWN'', f_license_reserved = 0, f_throughput = Fin 0,
                     f_bandwidth = 0, f_status = ''DOWN''\<rparr>
   \<and> float_to_int (fmul (Fin 0) SAFETY_MARGIN) = Inr 0
   \<and> (\<exists>v. judge_concurrently
             \<lparr>id_node = IdStr ''UNKNOWN'', vendor = ''Huawei'', bandwidth = 0,
              throughput = Fin 0, license_reserved = 0, license_actual = 0,
              admin_status = ''DOWN''\<rparr> = Inr v)
   \<and> re_search status_label log_without_banner = Some []
   \<and> re_search status_pattern log_without_banner = Some ''UP''
   \<and> extraction_fails id_pattern return_type_str log_without_banner
   \<and> (\<exists>d. parse log_without_banner = Inr d \<and> f_id d = IdStr ''UNKNOWN''
          \<and> f_status d = ''UP'')
   \<and> fits_double (400 - 0)
   \<and> (\<exists>v. judge_concurrently (scenario_A (IdStr ''UNKNOWN'') ''Huawei'') = Inr v)"
proof -
  have h: "re_search status_label [] = None" by code_simp
  have f: "extraction_fails id_pattern return_type_str []"
    "extraction_fails license_pattern return_type_int []"
    "extraction_fails throughput_pattern return_type_float []"
    "extraction_fails bandwidth_pattern return_type_int []"
    by code_simp+
  from parse_returns_record[OF disjI1[OF h]] obtain d where d:
    "parse [] = Inr d" "f_id d = IdStr ''UNKNOWN''" "f_license_reserved d = 0"
    "f_throughput d = Fin 0" "f_bandwidth d = 0" "f_status d = ''DOWN''"
    "float_to_int (fmul (f_throughput d) SAFETY_MARGIN) = Inr 0"
    and e: "\<forall>needed v0.
           float_to_int (fmul (f_throughput d) SAFETY_MARGIN) = Inr needed
           \<and> (50 < f_license_reserved d \<longrightarrow> fits_double (f_license_reserved d - needed))
           \<longrightarrow> (\<exists>v. judge_concurrently
                      \<lparr>id_node = f_id d, vendor = v0, bandwidth = f_bandwidth d,
                       throughput = f_throughput d,
                       license_reserved = f_license_reserved d,
                       license_actual = needed, admin_status = f_status d\<rparr> = Inr v)"
    using f h by blast
  have p0: "parse [] = Inr \<lparr>f_id = IdStr ''UNKNOWN'', f_license_reserved = 0,
      f_throughput = Fin 0, f_bandwidth = 0, f_status = ''DOWN''\<rparr>"
    using d by (cases d) simp
  have n0: "float_to_int (fmul (Fin 0) SAFETY_MARGIN) = Inr 0" using d by simp
  have j0: "\<exists>v. judge_concurrently
             \<lparr>id_node = IdStr ''UNKNOWN'', vendor = ''Huawei'', bandwidth = 0,
              throughput = Fin 0, license_reserved = 0, license_actual = 0,
              admin_status = ''DOWN''\<rparr> = Inr v"
    using e[rule_format, of 0 "''Huawei''"] d by simp
  have l: "re_search status_label log_without_banner = Some []" by code_simp
  have s: "re_search status_pattern log_without_banner = Some ''UP''" by code_simp
  have i: "extraction_fails id_pattern return_type_str log_without_banner" by code_simp
  have w: "fits_double (400 - 0)" by code_simp
  have p: "parse log_without_banner =
     Inr \<lparr>f_id = IdStr ''UNKNOWN'', f_license_reserved = 400, f_throughput = Fin (1 / 2),
          f_bandwidth = 56, f_status = ''UP''\<rparr>" by code_simp
  have n: "float_to_int (fmul (Fin (1 / 2)) SAFETY_MARGIN) = Inr 0" by code_simp
  have hyp: "re_search status_label log_without_banner = None
               \<or> re_search status_pattern log_without_banner \<noteq> None"
    using s by simp
  from parse_returns_record[OF hyp] obtain d' where d':
    "parse log_without_banner = Inr d'" "f_id d' = IdStr ''UNKNOWN''" "f_status d' = ''UP''"
    and e': "\<forall>needed v0.
           float_to_int (fmul (f_throughput d') SAFETY_MARGIN) = Inr needed
           \<and> (50 < f_license_reserved d' \<longrightarrow> fits_double (f_license_reserved d' - needed))
           \<longrightarrow> (\<exists>v. judge_concurrently
                      \<lparr>id_node = f_id d', vendor = v0, bandwidth = f_bandwidth d',
                       throughput = f_throughput d',
                       license_reserved = f_license_reserved d',
                       license_actual = needed, admin_status = f_status d'\<rparr> = Inr v)"
    using i l s by blast
  have dd: "d' = \<lparr>f_id = IdStr ''UNKNOWN'', f_license_reserved = 400,
      f_throughput = Fin (1 / 2), f_bandwidth = 56, f_status = ''UP''\<rparr>"
    using d'(1) p by simp
  have j: "\<exists>v. judge_concurrently (scenario_A (IdStr ''UNKNOWN'') ''Huawei'') = Inr v"
    using e'[rule_format, of 0 "''Huawei''"] n w unfolding dd by (simp add: scenario_A_def)
  have pd: "\<exists>d. parse log_without_banner = Inr d \<and> f_id d = IdStr ''UNKNOWN''
          \<and> f_status d = ''UP''"
    using d' by blast
  from h f p0 n0 j0 l s i pd w j show ?thesis by (simp only: simp_thms)
qed

text \<open>
  What the audit does with the fields of a recognised vendor, when it returns.
\<close>

lemma process_verdict_other_keys:
  "k \<noteq> id_node node \<Longrightarrow>
     probation_list (snd (process_verdict today node verdict adapter db)) k = probation_list db k"
  by (auto simp: process_verdict_def check_probation_def Let_def execute_rico_act_eq
        release_suspect_def add_suspect_def update_suspect_def rico_loop_probation
        split: option.splits)

lemma process_verdict_reads_one_record:
  assumes "probation_list db2 (id_node node) = probation_list db (id_node node)"
  shows "fst (process_verdict today node verdict adapter db2)
           = fst (process_verdict today node verdict adapter db)"
proof -
  have "fst (rico_loop today node adapter (offenses verdict) (s, update_suspect today (id_node node) db2))
      = fst (rico_loop today node adapter (offenses verdict) (s, update_suspect today (id_node node) db))" for s
    by (rule rico_loop_scripts)
  then show ?thesis using assms
    by (auto simp: process_verdict_def check_probation_def Let_def execute_rico_act_eq
          split: option.splits)
qed

lemma parse_id:
  "parse raw = Inr d \<Longrightarrow> f_id d = safe_extract id_pattern raw (IdStr ''UNKNOWN'') return_type_str"
  by (auto simp: parse_def Let_def bind_err_def split: if_splits option.splits sum.splits)

lemma ingest_and_audit_Inr:
  assumes "ingest_and_audit today raw db = Inr (rep, db')"
    and "adapters (detect_vendor raw) = Some a"
  shows "\<exists>d needed verdict.
           parse raw = Inr d
         \<and> float_to_int (fmul (f_throughput d) SAFETY_MARGIN) = Inr needed
         \<and> judge_concurrently
              \<lparr>id_node = f_id d, vendor = detect_vendor raw, bandwidth = f_bandwidth d,
               throughput = f_throughput d, license_reserved = f_license_reserved d,
               license_actual = needed, admin_status = f_status d\<rparr> = Inr verdict
         \<and> process_verdict today
              \<lparr>id_node = f_id d, vendor = detect_vendor raw, bandwidth = f_bandwidth d,
               throughput = f_throughput d, license_reserved = f_license_reserved d,
               license_actual = needed, admin_status = f_status d\<rparr> verdict a db = (rep, db')"
proof -
  have a: "a = HuaweiAdapter" by (cases a) simp
  from assms show ?thesis unfolding a
    by (auto simp: ingest_and_audit_def Let_def bind_err_def split: sum.splits)
qed

text \<open>
  C10. When the banner pattern is not found in the text, the id extracted is
  \<^verbatim>\<open>UNKNOWN\<close>, and so is the id of every record the parser returns. An audit that
  returns has then run the state machine on a snapshot with that id: its report depends
  on the database only through the probation record keyed \<^verbatim>\<open>UNKNOWN\<close>, and no other
  probation record is changed.
\<close>

theorem unidentified_links_share_record:
  assumes "re_search id_pattern raw = None"
  shows "safe_extract id_pattern raw (IdStr ''UNKNOWN'') return_type_str = IdStr ''UNKNOWN''
    \<and> (\<forall>d. parse raw = Inr d \<longrightarrow> f_id d = IdStr ''UNKNOWN'')
    \<and> (\<forall>rep db'. ingest_and_audit today raw db = Inr (rep, db') \<longrightarrow>
          (\<forall>a. adapters (detect_vendor raw) = Some a \<longrightarrow>
             (\<exists>node verdict. id_node node = IdStr ''UNKNOWN''
                \<and> judge_concurrently node = Inr verdict
                \<and> process_verdict today node verdict a db = (rep, db')))
          \<and> (\<forall>k. k \<noteq> IdStr ''UNKNOWN'' \<longrightarrow> probation_list db' k = probation_list db k)
          \<and> (\<forall>db2. probation_list db2 (IdStr ''UNKNOWN'') = probation_list db (IdStr ''UNKNOWN'')
                \<longrightarrow> map_sum id fst (ingest_and_audit today raw db2) = Inr rep))"
proof -
  have se: "safe_extract id_pattern raw (IdStr ''UNKNOWN'') return_type_str = IdStr ''UNKNOWN''"
    using assms by (simp add: safe_extract_def)
  have pid: "f_id d = IdStr ''UNKNOWN''" if "parse raw = Inr d" for d
    using parse_id[OF that] se by simp
  have main: "(\<forall>a. adapters (detect_vendor raw) = Some a \<longrightarrow>
             (\<exists>node verdict. id_node node = IdStr ''UNKNOWN''
                \<and> judge_concurrently node = Inr verdict
                \<and> process_verdict today node verdict a db = (rep, db')))
          \<and> (\<forall>k. k \<noteq> IdStr ''UNKNOWN'' \<longrightarrow> probation_list db' k = probation_list db k)
          \<and> (\<forall>db2. probation_list db2 (IdStr ''UNKNOWN'') = probation_list db (IdStr ''UNKNOWN'')
                \<longrightarrow> map_sum id fst (ingest_and_audit today raw db2) = Inr rep)"
    if r: "ingest_and_audit today raw db = Inr (rep, db')" for rep db'
  proof (cases "adapters (detect_vendor raw)")
    case None
    then have "ingest_and_audit today raw db2 = Inr (Unknown_Vendor_Signature, db2)" for db2
      by (simp add: ingest_and_audit_def)
    with r None show ?thesis by auto
  next
    case (Some a)
    from ingest_and_audit_Inr[OF r Some] obtain d needed verdict where
      p: "parse raw = Inr d"
      and n: "float_to_int (fmul (f_throughput d) SAFETY_MARGIN) = Inr needed"
      and j: "judge_concurrently
              \<lparr>id_node = f_id d, vendor = detect_vendor raw, bandwidth = f_bandwidth d,
               throughput = f_throughput d, license_reserved = f_license_reserved d,
               license_actual = needed, admin_status = f_status d\<rparr> = Inr verdict"
      and pv: "process_verdict today
              \<lparr>id_node = f_id d, vendor = detect_vendor raw, bandwidth = f_bandwidth d,
               throughput = f_throughput d, license_reserved = f_license_reserved d,
               license_actual = needed, admin_status = f_status d\<rparr> verdict a db = (rep, db')"
      by blast
    let ?node = "\<lparr>id_node = f_id d, vendor = detect_vendor raw, bandwidth = f_bandwidth d,
               throughput = f_throughput d, license_reserved = f_license_reserved d,
               license_actual = needed, admin_status = f_status d\<rparr>"
    have idn: "id_node ?node = IdStr ''UNKNOWN''" using pid[OF p] by simp
    have a: "a = HuaweiAdapter" by (cases a) simp
    have one: "\<exists>node verdict. id_node node = IdStr ''UNKNOWN''
                \<and> judge_concurrently node = Inr verdict
                \<and> process_verdict today node verdict a db = (rep, db')"
      using idn j pv by blast
    have others: "probation_list db' k = probation_list db k" if "k \<noteq> IdStr ''UNKNOWN''" for k
      using process_verdict_other_keys[of k ?node today verdict a db] that idn pv by simp
    have reads: "map_sum id fst (ingest_and_audit today raw db2) = Inr rep"
      if "probation_list db2 (IdStr ''UNKNOWN'') = probation_list db (IdStr ''UNKNOWN'')" for db2
    proof -
      have "ingest_and_audit today raw db2 = Inr (process_verdict today ?node verdict a db2)"
        using Some p n j unfolding a by (simp add: ingest_and_audit_def)
      moreover have "fst (process_verdict today ?node verdict a db2) = rep"
        using process_verdict_reads_one_record[of db2 ?node db today verdict a] that idn pv
        by simp
      ultimately show ?thesis by simp
    qed
    from one others reads Some show ?thesis by auto
  qed
  from se pid main show ?thesis by blast
qed

text \<open>
  Two texts without a banner, from different links: the first creates the record keyed
  \<^verbatim>\<open>UNKNOWN\<close>, the second clears it.
\<close>

theorem unidentified_links_share_record_witness:
  "re_search id_pattern log_without_banner = None
   \<and> ingest_and_audit 100 log_without_banner empty_db
       = Inr (Indicted (IdStr ''UNKNOWN'') ''LICENSE,BW,ZOMBIE'',
              probation_db (IdStr ''UNKNOWN'') 100 1)
   \<and> probation_list (probation_db (IdStr ''UNKNOWN'') 100 1) (IdInt 7)
       = probation_list empty_db (IdInt 7)
   \<and> re_search id_pattern log_clean_without_banner = None
   \<and> ingest_and_audit 101 log_clean_without_banner (probation_db (IdStr ''UNKNOWN'') 100 1)
       = Inr (Cleared (IdStr ''UNKNOWN''), empty_db)"
proof -
  have h: "re_search id_pattern log_without_banner = None" by code_simp
  have p: "parse log_without_banner =
     Inr \<lparr>f_id = IdStr ''UNKNOWN'', f_license_reserved = 400, f_throughput = Fin (1 / 2),
          f_bandwidth = 56, f_status = ''UP''\<rparr>" by code_simp
  have v: "detect_vendor log_without_banner = ''Huawei''" by code_simp
  have n: "float_to_int (fmul (Fin (1 / 2)) SAFETY_MARGIN) = Inr 0" by code_simp
  have j: "judge_concurrently (scenario_A (IdStr ''UNKNOWN'') ''Huawei'') = Inr verdict_A"
    by code_simp
  have e: "ingest_and_audit 100 log_without_banner empty_db
       = Inr (Indicted (IdStr ''UNKNOWN'') ''LICENSE,BW,ZOMBIE'',
              probation_db (IdStr ''UNKNOWN'') 100 1)"
    using p v n j
    by (simp add: ingest_and_audit_def adapters_def scenario_A_def process_verdict_def Let_def
          check_probation_def empty_db_def add_suspect_def probation_db_def verdict_A_def)
  have h2: "re_search id_pattern log_clean_without_banner = None" by code_simp
  have p2: "parse log_clean_without_banner =
     Inr \<lparr>f_id = IdStr ''UNKNOWN'', f_license_reserved = 10, f_throughput = Fin 100,
          f_bandwidth = 28, f_status = ''UP''\<rparr>" by code_simp
  have v2: "detect_vendor log_clean_without_banner = ''Huawei''" by code_simp
  have n2: "float_to_int (fmul (Fin 100) SAFETY_MARGIN) = Inr 120" by code_simp
  have j2: "judge_concurrently
      \<lparr>id_node = IdStr ''UNKNOWN'', vendor = ''Huawei'', bandwidth = 28, throughput = Fin 100,
       license_reserved = 10, license_actual = 120, admin_status = ''UP''\<rparr>
      = Inr \<lparr>status = ''Innocent'', offenses = [], total_savings = Fin 0\<rparr>"
    by code_simp
  have e2: "ingest_and_audit 101 log_clean_without_banner (probation_db (IdStr ''UNKNOWN'') 100 1)
       = Inr (Cleared (IdStr ''UNKNOWN''), empty_db)"
    using p2 v2 n2 j2
    by (simp add: ingest_and_audit_def adapters_def process_verdict_def Let_def
          check_probation_def empty_db_def release_suspect_def probation_db_def)
  from unidentified_links_share_record[OF h, of 100 empty_db] e e2 h h2 show ?thesis by simp
qed

text \<open>
  A banner with a name is found, but \<^verbatim>\<open>int\<close> refuses the name, so the id is
  \<^verbatim>\<open>UNKNOWN\<close> as well; a banner with digits gives an integer id.
\<close>

lemma named_banner_is_unknown:
  "safe_extract id_pattern ''+++    DJELFA_GHOST_LINK     2026-02-04''
     (IdStr ''UNKNOWN'') return_type_str = IdStr ''UNKNOWN''"
  "safe_extract id_pattern ''+++ 007'' (IdStr ''UNKNOWN'') return_type_str = IdInt 7"
  by code_simp+

end
